theory Spec2Isabelle
  imports Main "HOL-Library.Word"
begin

section \<open>Time, as package time is used by the collector\<close>

text \<open>
  A \<open>time.Time\<close> is an instant, counted here in nanoseconds from Go's zero instant, so
  that \<open>IsZero\<close> is equality with 0. A \<open>time.Duration\<close> is an int64 of nanoseconds:
  \<open>Time.Sub\<close> saturates at its two ends, \<open>Time.Add\<close> moves the instant.
  All clock readings of the model are wall-clock instants.
\<close>

type_synonym Time = int
type_synonym Duration = int

definition Second :: Duration where
  "Second = 1000000000"

definition Minute :: Duration where
  "Minute = 60 * Second"

definition minDuration :: Duration where
  "minDuration = - (2 ^ 63)"

definition maxDuration :: Duration where
  "maxDuration = 2 ^ 63 - 1"

definition IsZero :: "Time \<Rightarrow> bool" where
  "IsZero t = (t = 0)"

definition time_Sub :: "Time \<Rightarrow> Time \<Rightarrow> Duration" where
  "time_Sub t u =
     (let d = t - u in
      if d < minDuration then minDuration
      else if maxDuration < d then maxDuration
      else d)"

definition time_Add :: "Time \<Rightarrow> Duration \<Rightarrow> Time" where
  "time_Add t d = t + d"

definition Before :: "Time \<Rightarrow> Time \<Rightarrow> bool" where
  "Before t u = (t < u)"

section \<open>Constants of backend\_collector.go\<close>

definition pairCacheExpiration :: Duration where
  "pairCacheExpiration = Minute"

definition pairCacheCleanupInterval :: Duration where
  "pairCacheCleanupInterval = 30 * Second"

definition uploadBatchMaxSize :: nat where
  "uploadBatchMaxSize = 10"

definition uploadBatchFlushDuration :: Duration where
  "uploadBatchFlushDuration = 30 * Second"

section \<open>Data\<close>

text \<open>
  Byte slices (\<open>net.IP\<close>, marshalled protos, HTTP bodies) are strings of 8-bit
  characters. The identifiers of package akid are 128-bit values. The witness proto
  \<open>pb.Witness\<close> is a type parameter \<open>'w\<close>: the collector never looks inside it, it only
  hands it to the parser, the merge, the plugins, the obfuscation, the hash and the
  marshaller.
\<close>

type_synonym bytes = string
type_synonym IP = bytes
type_synonym WitnessID = "128 word"
type_synonym LearnSessionID = "128 word"
type_synonym ServiceID = "128 word"

datatype NetworkDirection = Inbound | Outbound

record 'w witnessWithInfo =
  srcIP :: IP
  srcPort :: "16 word"
  dstIP :: IP
  dstPort :: "16 word"
  observationTime :: Time
  id_field :: WitnessID
  witness :: 'w

record WitnessReport =
  Direction :: NetworkDirection
  OriginAddr :: IP
  OriginPort :: "16 word"
  DestinationAddr :: IP
  DestinationPort :: "16 word"
  WitnessProto :: string
  ClientWitnessTime :: Time
  Hash :: string
  ID :: WitnessID

text \<open>
  \<open>akinet.ParsedNetworkTraffic\<close>: the content is an interface value; the collector's type
  switch tells an HTTP request, an HTTP response and everything else apart. The ports are
  Go \<open>int\<close>s.
\<close>

datatype ('q, 'r) ParsedNetworkContent =
    ContentHTTPRequest 'q
  | ContentHTTPResponse 'r
  | ContentOther

record ('q, 'r) ParsedNetworkTraffic =
  SrcIP :: IP
  SrcPort :: int
  DstIP :: IP
  DstPort :: int
  Content :: "('q, 'r) ParsedNetworkContent"
  ObservationTime :: Time

record 'w PartialWitness =
  PairKey :: WitnessID
  Witness :: 'w

text \<open>
  \<open>plugin.AkitaPlugin\<close>: \<open>Transform\<close> works on the method of the witness in place and
  returns an error or nil. Here it maps the witness before the call to the error
  (\<open>Inl\<close>) or to the witness after the call (\<open>Inr\<close>).
\<close>

record 'w AkitaPlugin =
  Name :: string
  Transform :: "'w \<Rightarrow> string + 'w"

text \<open>
  What the collector calls outside its own file: \<open>learn.ParseHTTP\<close>,
  \<open>learn.MergeWitness\<close> (which writes the merge into its first argument),
  \<open>obfuscate\<close>, \<open>pbhash.HashProto\<close>, \<open>proto.Marshal\<close> and
  \<open>base64.URLEncoding.EncodeToString\<close>. They are parameters of the model.
\<close>

record ('q, 'r, 'w) deps =
  ParseHTTP :: "('q, 'r) ParsedNetworkContent \<Rightarrow> string + 'w PartialWitness"
  MergeWitness :: "'w \<Rightarrow> 'w \<Rightarrow> 'w"
  obfuscate :: "'w \<Rightarrow> 'w"
  HashProto :: "'w \<Rightarrow> string + string"
  Marshal :: "'w \<Rightarrow> string + bytes"
  EncodeToString :: "bytes \<Rightarrow> string"

section \<open>Effects\<close>

text \<open>
  The collector returns nothing of interest (\<open>Process\<close> and \<open>Close\<close> always return a
  nil error); what it does is seen in its calls. Every function of the model returns
  the list of the calls it made, in order, beside the new state: the three printer
  levels with the format and its arguments, each entry into \<open>queueUpload\<close>, each plugin
  \<open>Transform\<close> (by plugin name, with the witness it was given), \<open>obfuscate\<close>, and
  \<open>ReportWitnesses\<close> with the timeout of its context, the session and the reports.
\<close>

datatype 'w effect =
    Debugf string "string list"
  | Errorf string "string list"
  | Warningf string "string list"
  | QueueUpload "'w witnessWithInfo"
  | TransformCall string 'w
  | ObfuscateCall 'w
  | ReportWitnessesCall Duration LearnSessionID "WitnessReport list"

section \<open>The batcher\<close>

text \<open>
  Modelled from the spec: \<open>batcher.InMemory\<close> of akita-libs, whose source is not in
  the repository. Section 4.4 of the specification: a queue with a maximum size \<open>N\<close> and
  a maximum residency \<open>T\<close>; \<open>add\<close> appends and, if the queue length reaches \<open>N\<close>,
  flushes at once; the time trigger flushes when the oldest queued item has resided
  longer than \<open>T\<close>; a flush hands the whole queue to the batch processor and consumes
  it; \<open>close\<close> forces a final flush, and on an empty queue it is a no-op.
  Each queued item carries the instant it was added.
\<close>

record 'i InMemory =
  bufSize :: nat
  flushDuration :: Duration
  buf :: "(Time \<times> 'i) list"

definition NewInMemory :: "nat \<Rightarrow> Duration \<Rightarrow> 'i InMemory" where
  "NewInMemory n d = \<lparr>bufSize = n, flushDuration = d, buf = []\<rparr>"

definition InMemory_flush ::
  "('i list \<Rightarrow> 'e list) \<Rightarrow> 'i InMemory \<Rightarrow> 'e list \<times> 'i InMemory" where
  "InMemory_flush processBatch b =
     (if buf b = [] then ([], b)
      else (processBatch (map snd (buf b)), b\<lparr>buf := []\<rparr>))"

definition InMemory_Add ::
  "('i list \<Rightarrow> 'e list) \<Rightarrow> Time \<Rightarrow> 'i \<Rightarrow> 'i InMemory \<Rightarrow> 'e list \<times> 'i InMemory" where
  "InMemory_Add processBatch now i b =
     (let b1 = b\<lparr>buf := buf b @ [(now, i)]\<rparr> in
      if bufSize b1 \<le> length (buf b1) then InMemory_flush processBatch b1
      else ([], b1))"

definition InMemory_tick ::
  "('i list \<Rightarrow> 'e list) \<Rightarrow> Time \<Rightarrow> 'i InMemory \<Rightarrow> 'e list \<times> 'i InMemory" where
  "InMemory_tick processBatch now b =
     (case buf b of
        [] \<Rightarrow> ([], b)
      | (t0, _) # _ \<Rightarrow>
          if flushDuration b < time_Sub now t0 then InMemory_flush processBatch b
          else ([], b))"

definition InMemory_Close ::
  "('i list \<Rightarrow> 'e list) \<Rightarrow> 'i InMemory \<Rightarrow> 'e list \<times> 'i InMemory" where
  "InMemory_Close processBatch b = InMemory_flush processBatch b"

section \<open>The backend collector\<close>

text \<open>
  The \<open>learnClient\<close> is seen through its one method the collector calls:
  \<open>ReportWitnesses\<close>, from the timeout of the context, the session and the reports to
  the error it returns, if any. The pair cache is a Go map.
\<close>

record 'w BackendCollector =
  serviceID :: ServiceID
  learnSessionID :: LearnSessionID
  learnClient :: "Duration \<Rightarrow> LearnSessionID \<Rightarrow> WitnessReport list \<Rightarrow> string option"
  dir :: NetworkDirection
  pairCache :: "WitnessID \<rightharpoonup> 'w witnessWithInfo"
  uploadBatch :: "'w witnessWithInfo InMemory"
  lastProcessTime :: Time
  plugins :: "'w AkitaPlugin list"

definition toReport ::
  "('q, 'r, 'w) deps \<Rightarrow> 'w witnessWithInfo \<Rightarrow> NetworkDirection \<Rightarrow> string + WitnessReport" where
  "toReport d r direction =
     (case HashProto d (witness r) of
        Inl err \<Rightarrow> Inl (''failed to hash witness proto: '' @ err)
      | Inr hash \<Rightarrow>
          (case Marshal d (witness r) of
             Inl err \<Rightarrow> Inl (''failed to marshal witness proto: '' @ err)
           | Inr b \<Rightarrow>
               Inr \<lparr>Direction = direction,
                    OriginAddr = srcIP r,
                    OriginPort = srcPort r,
                    DestinationAddr = dstIP r,
                    DestinationPort = dstPort r,
                    WitnessProto = EncodeToString d b,
                    ClientWitnessTime = observationTime r,
                    Hash = hash,
                    ID = id_field r\<rparr>))"

definition NewBackendCollector ::
  "ServiceID \<Rightarrow> LearnSessionID \<Rightarrow>
   (Duration \<Rightarrow> LearnSessionID \<Rightarrow> WitnessReport list \<Rightarrow> string option) \<Rightarrow>
   NetworkDirection \<Rightarrow> 'w AkitaPlugin list \<Rightarrow> 'w BackendCollector" where
  "NewBackendCollector svc lrn lc direction ps =
     \<lparr>serviceID = svc,
      learnSessionID = lrn,
      learnClient = lc,
      dir = direction,
      pairCache = Map.empty,
      uploadBatch = NewInMemory uploadBatchMaxSize uploadBatchFlushDuration,
      lastProcessTime = 0,
      plugins = ps\<rparr>"

text \<open>
  The loop of \<open>uploadWitnesses\<close>: the warnings it prints and the reports it appends,
  both in the order of the batch.
\<close>

fun uploadWitnesses_loop ::
  "('q, 'r, 'w) deps \<Rightarrow> NetworkDirection \<Rightarrow> 'w witnessWithInfo list \<Rightarrow>
   'w effect list \<times> WitnessReport list" where
  "uploadWitnesses_loop d direction [] = ([], [])"
| "uploadWitnesses_loop d direction (w # ws) =
     (let (es, reports) = uploadWitnesses_loop d direction ws in
      case toReport d w direction of
        Inr r \<Rightarrow> (es, r # reports)
      | Inl err \<Rightarrow>
          (Warningf ''Failed to convert witness to report: %v\<newline>'' [err] # es, reports))"

definition uploadWitnesses ::
  "('q, 'r, 'w) deps \<Rightarrow> 'w BackendCollector \<Rightarrow> 'w witnessWithInfo list \<Rightarrow> 'w effect list" where
  "uploadWitnesses d c inp =
     (let (es, reports) = uploadWitnesses_loop d (dir c) inp;
          timeout = 30 * Second
      in es @ [ReportWitnessesCall timeout (learnSessionID c) reports] @
         (case learnClient c timeout (learnSessionID c) reports of
            None \<Rightarrow> []
          | Some err \<Rightarrow> [Warningf ''Failed to upload witnesses: %v\<newline>'' [err]]))"

text \<open>
  The loop of \<open>queueUpload\<close> over the plugins: the calls made, and the witness after
  the last plugin, or \<open>None\<close> when a plugin returned an error.
\<close>

fun queueUpload_loop :: "'w AkitaPlugin list \<Rightarrow> 'w \<Rightarrow> 'w effect list \<times> 'w option" where
  "queueUpload_loop [] m = ([], Some m)"
| "queueUpload_loop (p # ps) m =
     (case Transform p m of
        Inl err \<Rightarrow>
          ([TransformCall (Name p) m,
            Errorf ''plugin %q returned error, skipping: %v'' [Name p, err]], None)
      | Inr m' \<Rightarrow>
          (let (es, res) = queueUpload_loop ps m' in (TransformCall (Name p) m # es, res)))"

definition queueUpload ::
  "('q, 'r, 'w) deps \<Rightarrow> Time \<Rightarrow> 'w witnessWithInfo \<Rightarrow> 'w BackendCollector \<Rightarrow>
   'w effect list \<times> 'w BackendCollector" where
  "queueUpload d now w c =
     (case queueUpload_loop (plugins c) (witness w) of
        (es, None) \<Rightarrow> (QueueUpload w # es, c)
      | (es, Some m) \<Rightarrow>
          (let w' = w\<lparr>witness := obfuscate d m\<rparr>;
               (es', b) = InMemory_Add (uploadWitnesses d c) now w' (uploadBatch c)
           in (QueueUpload w # es @ [ObfuscateCall m] @ es', c\<lparr>uploadBatch := b\<rparr>)))"

text \<open>
  \<open>flushPairCache\<close> ranges over the Go map, whose order of visit is not specified:
  the keys are visited in the order \<open>ks\<close>, which the caller of the model supplies (an
  enumeration of the keys of the cache, each once). The clock reading \<open>now\<close> is the
  instant the batcher stamps on what it is given.
\<close>

fun flushPairCache ::
  "('q, 'r, 'w) deps \<Rightarrow> Time \<Rightarrow> Time \<Rightarrow> WitnessID list \<Rightarrow> 'w BackendCollector \<Rightarrow>
   'w effect list \<times> 'w BackendCollector" where
  "flushPairCache d now cutoffTime [] c = ([], c)"
| "flushPairCache d now cutoffTime (k # ks) c =
     (case pairCache c k of
        None \<Rightarrow> flushPairCache d now cutoffTime ks c
      | Some e \<Rightarrow>
          if Before (observationTime e) cutoffTime then
            (let (es, c1) = queueUpload d now e c;
                 c2 = c1\<lparr>pairCache := (pairCache c1)(k := None)\<rparr>;
                 (es', c3) = flushPairCache d now cutoffTime ks c2
             in (es @ es', c3))
          else flushPairCache d now cutoffTime ks c)"

text \<open>
  What a call reads from outside: the clock (\<open>time.Now\<close>) and the order in which the
  range over the pair cache visits its keys. One clock reading serves the whole call.
\<close>

record callEnv =
  now :: Time
  visit :: "WitnessID list"

text \<open>The body of \<open>Process\<close>, before the deferred function runs.\<close>

definition Process_body ::
  "('q, 'r, 'w) deps \<Rightarrow> Time \<Rightarrow> ('q, 'r) ParsedNetworkTraffic \<Rightarrow> 'w BackendCollector \<Rightarrow>
   'w effect list \<times> 'w BackendCollector" where
  "Process_body d tnow t c =
     (let isRequest = (case Content t of ContentHTTPRequest _ \<Rightarrow> True | _ \<Rightarrow> False) in
      case Content t of
        ContentOther \<Rightarrow> ([], c)
      | _ \<Rightarrow>
         (case ParseHTTP d (Content t) of
            Inl parseHTTPErr \<Rightarrow>
              ([Debugf ''Failed to parse HTTP, skipping: %v\<newline>'' [parseHTTPErr]], c)
          | Inr partial \<Rightarrow>
              (case pairCache c (PairKey partial) of
                 Some pair \<Rightarrow>
                   (let pair1 = pair\<lparr>witness := MergeWitness d (witness pair) (Witness partial)\<rparr>;
                        c1 = c\<lparr>pairCache := (pairCache c)(PairKey partial := None)\<rparr>;
                        pair2 = (if isRequest
                                 then pair1\<lparr>srcIP := dstIP pair1, dstIP := srcIP pair1,
                                            srcPort := dstPort pair1, dstPort := srcPort pair1\<rparr>
                                 else pair1)
                    in queueUpload d tnow pair2 c1)
               | None \<Rightarrow>
                   ([], c\<lparr>pairCache := (pairCache c)(PairKey partial \<mapsto>
                           \<lparr>srcIP = SrcIP t,
                            srcPort = word_of_int (SrcPort t),
                            dstIP = DstIP t,
                            dstPort = word_of_int (DstPort t),
                            observationTime = ObservationTime t,
                            id_field = PairKey partial,
                            witness = Witness partial\<rparr>)\<rparr>))))"

text \<open>The deferred function of \<open>Process\<close>: the lazy flush of the pair cache.\<close>

definition Process_deferred ::
  "('q, 'r, 'w) deps \<Rightarrow> callEnv \<Rightarrow> 'w BackendCollector \<Rightarrow>
   'w effect list \<times> 'w BackendCollector" where
  "Process_deferred d env c =
     (let (es, c1) =
            (if \<not> IsZero (lastProcessTime c) \<and>
                pairCacheCleanupInterval < time_Sub (now env) (lastProcessTime c)
             then flushPairCache d (now env)
                    (time_Add (now env) (- 1 * pairCacheExpiration)) (visit env) c
             else ([], c))
      in (es, c1\<lparr>lastProcessTime := now env\<rparr>))"

definition Process ::
  "('q, 'r, 'w) deps \<Rightarrow> callEnv \<Rightarrow> ('q, 'r) ParsedNetworkTraffic \<Rightarrow> 'w BackendCollector \<Rightarrow>
   'w effect list \<times> 'w BackendCollector" where
  "Process d env t c =
     (let (es, c1) = Process_body d (now env) t c;
          (es', c2) = Process_deferred d env c1
      in (es @ es', c2))"

definition Close ::
  "('q, 'r, 'w) deps \<Rightarrow> callEnv \<Rightarrow> 'w BackendCollector \<Rightarrow>
   'w effect list \<times> 'w BackendCollector" where
  "Close d env c =
     (let (es, c1) = flushPairCache d (now env) (now env) (visit env) c;
          (es', b) = InMemory_Close (uploadWitnesses d c1) (uploadBatch c1)
      in (es @ es', c1\<lparr>uploadBatch := b\<rparr>))"

text \<open>The time trigger of the batcher, seen from the collector that owns the batch.\<close>

definition Tick ::
  "('q, 'r, 'w) deps \<Rightarrow> Time \<Rightarrow> 'w BackendCollector \<Rightarrow> 'w effect list \<times> 'w BackendCollector" where
  "Tick d tnow c =
     (let (es, b) = InMemory_tick (uploadWitnesses d c) tnow (uploadBatch c)
      in (es, c\<lparr>uploadBatch := b\<rparr>))"

section \<open>Replaying an archive\<close>

text \<open>
  An entry of the archive has a request or not, a response or not, and a start time.
  \<open>akinet.HTTPRequest\<close> and \<open>akinet.HTTPResponse\<close> carry the stream identifier and the
  sequence number that \<open>parseFromHAR\<close> writes, beside what \<open>FromHAR\<close> read.
\<close>

type_synonym UUID = "128 word"

record ('hq, 'hr) HAREntry =
  Request :: "'hq option"
  Response :: "'hr option"
  StartedDateTime :: Time

record 'a HTTPRequest =
  StreamID_req :: UUID
  Seq_req :: int
  fromHAR_req :: 'a

record 'a HTTPResponse =
  StreamID_resp :: UUID
  Seq_resp :: int
  fromHAR_resp :: 'a

text \<open>
  Modelled from the spec: \<open>sampled_err.Errors\<close> of akita-libs, whose source is not in
  the repository. Section 4.5 of the specification: a bounded sample (the first
  \<open>SampleCount\<close>) of the error messages, and a total error count.
\<close>

record Errors =
  SampleCount :: nat
  Samples :: "string list"
  TotalCount :: int

definition Errors_Add :: "string \<Rightarrow> Errors \<Rightarrow> Errors" where
  "Errors_Add err e =
     e\<lparr>Samples := (if length (Samples e) < SampleCount e then Samples e @ [err] else Samples e),
       TotalCount := TotalCount e + 1\<rparr>"

text \<open>
  The state of the loop of \<open>parseFromHAR\<close>: the count of successful entries, the
  errors, the collector, and what was printed at debug level (the format of the wrap,
  the index and the error wrapped).
\<close>

record 'c harState =
  successfulEntries :: int
  errs :: Errors
  col :: 'c
  debugLines :: "(string \<times> int \<times> string) list"

text \<open>
  The frame \<open>parseFromHAR\<close> builds for \<open>col.Process\<close>: only the observation time and
  the content are set.
\<close>

definition harFrame ::
  "Time \<Rightarrow> ('q, 'r) ParsedNetworkContent \<Rightarrow> ('q, 'r) ParsedNetworkTraffic" where
  "harFrame t content =
     \<lparr>SrcIP = [], SrcPort = 0, DstIP = [], DstPort = 0, Content = content, ObservationTime = t\<rparr>"

text \<open>
  The collector is an interface value: \<open>process\<close> is its \<open>Process\<close>, from a frame and
  the collector to the collector after the call (the error it returns is dropped by
  \<open>parseFromHAR\<close>). \<open>convertRequest\<close> and \<open>convertResponse\<close> return what \<open>FromHAR\<close> read,
  or its error. The loop runs over the entries with their index.
\<close>

definition parseFromHAR_entry ::
  "(('a HTTPRequest, 'b HTTPResponse) ParsedNetworkTraffic \<Rightarrow> 'c \<Rightarrow> 'c) \<Rightarrow>
   ('hq \<Rightarrow> string + 'a HTTPRequest) \<Rightarrow> ('hr \<Rightarrow> string + 'b HTTPResponse) \<Rightarrow>
   UUID \<Rightarrow> int \<Rightarrow> ('hq, 'hr) HAREntry \<Rightarrow> 'c harState \<Rightarrow> 'c harState" where
  "parseFromHAR_entry process convertRequest convertResponse harUUID i entry st =
     (let (entrySuccess1, st1) =
            (case Request entry of
               None \<Rightarrow> (True, st)
             | Some hreq \<Rightarrow>
                 (case convertRequest hreq of
                    Inr req \<Rightarrow>
                      (True, st\<lparr>col := process
                         (harFrame (StartedDateTime entry)
                            (ContentHTTPRequest (req\<lparr>StreamID_req := harUUID, Seq_req := i\<rparr>)))
                         (col st)\<rparr>)
                  | Inl err \<Rightarrow>
                      (False, st\<lparr>errs := Errors_Add err (errs st),
                                 debugLines := debugLines st @
                                   [(''failed to convert HAR request, index=%d'', i, err)]\<rparr>)));
          (entrySuccess2, st2) =
            (case Response entry of
               None \<Rightarrow> (entrySuccess1, st1)
             | Some hresp \<Rightarrow>
                 (case convertResponse hresp of
                    Inr resp \<Rightarrow>
                      (entrySuccess1, st1\<lparr>col := process
                         (harFrame (StartedDateTime entry)
                            (ContentHTTPResponse (resp\<lparr>StreamID_resp := harUUID, Seq_resp := i\<rparr>)))
                         (col st1)\<rparr>)
                  | Inl err \<Rightarrow>
                      (False, st1\<lparr>errs := Errors_Add err (errs st1),
                                  debugLines := debugLines st1 @
                                    [(''failed to convert HAR response, index=%d'', i, err)]\<rparr>)))
      in if entrySuccess2
         then st2\<lparr>successfulEntries := successfulEntries st2 + 1\<rparr>
         else st2)"

fun parseFromHAR_loop ::
  "(('a HTTPRequest, 'b HTTPResponse) ParsedNetworkTraffic \<Rightarrow> 'c \<Rightarrow> 'c) \<Rightarrow>
   ('hq \<Rightarrow> string + 'a HTTPRequest) \<Rightarrow> ('hr \<Rightarrow> string + 'b HTTPResponse) \<Rightarrow>
   UUID \<Rightarrow> int \<Rightarrow> ('hq, 'hr) HAREntry list \<Rightarrow> 'c harState \<Rightarrow> 'c harState" where
  "parseFromHAR_loop process convertRequest convertResponse harUUID i [] st = st"
| "parseFromHAR_loop process convertRequest convertResponse harUUID i (entry # rest) st =
     parseFromHAR_loop process convertRequest convertResponse harUUID (i + 1) rest
       (parseFromHAR_entry process convertRequest convertResponse harUUID i entry st)"

definition parseFromHAR ::
  "(('a HTTPRequest, 'b HTTPResponse) ParsedNetworkTraffic \<Rightarrow> 'c \<Rightarrow> 'c) \<Rightarrow>
   ('hq \<Rightarrow> string + 'a HTTPRequest) \<Rightarrow> ('hr \<Rightarrow> string + 'b HTTPResponse) \<Rightarrow>
   UUID \<Rightarrow> 'c \<Rightarrow> ('hq, 'hr) HAREntry list \<Rightarrow> 'c harState" where
  "parseFromHAR process convertRequest convertResponse harUUID c entries =
     parseFromHAR_loop process convertRequest convertResponse harUUID 0 entries
       \<lparr>successfulEntries = 0,
        errs = \<lparr>SampleCount = 3, Samples = [], TotalCount = 0\<rparr>,
        col = c,
        debugLines = []\<rparr>"

text \<open>
  Of one entry: the errors of the sides that are present and do not convert, request
  first; and the frames of the sides that convert, as the loop gives them to the
  collector for the entry at index \<open>i\<close>.
\<close>

definition requestErrors :: "('hq \<Rightarrow> string + 'q) \<Rightarrow> ('hq, 'hr) HAREntry \<Rightarrow> string list" where
  "requestErrors convertRequest entry =
     (case Request entry of
        None \<Rightarrow> []
      | Some hreq \<Rightarrow> (case convertRequest hreq of Inl err \<Rightarrow> [err] | Inr _ \<Rightarrow> []))"

definition responseErrors :: "('hr \<Rightarrow> string + 'r) \<Rightarrow> ('hq, 'hr) HAREntry \<Rightarrow> string list" where
  "responseErrors convertResponse entry =
     (case Response entry of
        None \<Rightarrow> []
      | Some hresp \<Rightarrow> (case convertResponse hresp of Inl err \<Rightarrow> [err] | Inr _ \<Rightarrow> []))"

definition entryErrors ::
  "('hq \<Rightarrow> string + 'q) \<Rightarrow> ('hr \<Rightarrow> string + 'r) \<Rightarrow> ('hq, 'hr) HAREntry \<Rightarrow> string list" where
  "entryErrors convertRequest convertResponse entry =
     requestErrors convertRequest entry @ responseErrors convertResponse entry"

definition entryFrames ::
  "('hq \<Rightarrow> string + 'a HTTPRequest) \<Rightarrow> ('hr \<Rightarrow> string + 'b HTTPResponse) \<Rightarrow> UUID \<Rightarrow> int \<Rightarrow>
   ('hq, 'hr) HAREntry \<Rightarrow> ('a HTTPRequest, 'b HTTPResponse) ParsedNetworkTraffic list" where
  "entryFrames convertRequest convertResponse harUUID i entry =
     (case Request entry of
        None \<Rightarrow> []
      | Some hreq \<Rightarrow>
          (case convertRequest hreq of
             Inl _ \<Rightarrow> []
           | Inr req \<Rightarrow>
               [harFrame (StartedDateTime entry)
                  (ContentHTTPRequest (req\<lparr>StreamID_req := harUUID, Seq_req := i\<rparr>))])) @
     (case Response entry of
        None \<Rightarrow> []
      | Some hresp \<Rightarrow>
          (case convertResponse hresp of
             Inl _ \<Rightarrow> []
           | Inr resp \<Rightarrow>
               [harFrame (StartedDateTime entry)
                  (ContentHTTPResponse (resp\<lparr>StreamID_resp := harUUID, Seq_resp := i\<rparr>))]))"

fun archiveFrames ::
  "('hq \<Rightarrow> string + 'a HTTPRequest) \<Rightarrow> ('hr \<Rightarrow> string + 'b HTTPResponse) \<Rightarrow> UUID \<Rightarrow> int \<Rightarrow>
   ('hq, 'hr) HAREntry list \<Rightarrow> ('a HTTPRequest, 'b HTTPResponse) ParsedNetworkTraffic list" where
  "archiveFrames convertRequest convertResponse harUUID i [] = []"
| "archiveFrames convertRequest convertResponse harUUID i (entry # rest) =
     entryFrames convertRequest convertResponse harUUID i entry @
     archiveFrames convertRequest convertResponse harUUID (i + 1) rest"

section \<open>The REST client\<close>

text \<open>
  The errors \<open>sendRequest\<close> can return: a new error with a message, an error wrapped
  with a message, the \<open>HTTPError\<close> of the package with its status code and body, and an
  error of the HTTP client or of the reader of the body. \<open>Error\<close> is the method of the
  Go interface; \<open>itoa\<close> writes an integer as \<open>%d\<close> does.
\<close>

datatype rest_error =
    ErrorNew string
  | ErrorWrap rest_error string
  | HTTPError int bytes
  | ClientError string

fun itoa_nat :: "nat \<Rightarrow> string" where
  "itoa_nat n =
     (if n < 10 then [''0123456789'' ! n]
      else itoa_nat (n div 10) @ [''0123456789'' ! (n mod 10)])"

definition itoa :: "int \<Rightarrow> string" where
  "itoa i = (if i < 0 then CHR ''-'' # itoa_nat (nat (- i)) else itoa_nat (nat i))"

definition invalidCredentials :: string where
  \<open>invalidCredentials =
     ''Invalid credentials, run "login" or use AKITA_API_KEY_SECRET environment variable''\<close>

definition keyIDNotFound :: string where
  \<open>keyIDNotFound =
     ''API key ID not found, run "login" or use AKITA_API_KEY_ID environment variable''\<close>

definition keySecretNotFound :: string where
  \<open>keySecretNotFound =
     ''API key secret not found, run "login" or use AKITA_API_KEY_SECRET environment variable''\<close>

fun Error :: "rest_error \<Rightarrow> string" where
  "Error (ErrorNew msg) = msg"
| "Error (ErrorWrap err msg) = msg @ '': '' @ Error err"
| "Error (HTTPError statusCode body) =
     (if statusCode = 401 then invalidCredentials
      else ''received status code '' @ itoa statusCode @ '', body: '' @ body)"
| "Error (ClientError msg) = msg"

text \<open>
  A request carries its basic authentication and its headers (under the keys as
  \<open>Header.Set\<close> files them); a response its status code and what reading its body to
  the end gives, the bytes or an error.
\<close>

record 'a httpRequest =
  BasicAuth :: "(string \<times> string) option"
  Header :: "string \<rightharpoonup> string"
  payload :: 'a

record httpResponse =
  StatusCode :: int
  Body :: "string + bytes"

text \<open>
  What \<open>sendRequest\<close> reads from outside: the configured key and secret, the user agent,
  the git version, the dogfood flag, the conversion into a retryable request and the
  shared HTTP client.
\<close>

record 'a restEnv =
  GetAPIKeyAndSecret :: "string \<times> string"
  GetUserAgent :: string
  GitVersion :: string
  dogfood :: bool
  FromRequest :: "'a httpRequest \<Rightarrow> string + 'a httpRequest"
  Do :: "'a httpRequest \<Rightarrow> string + httpResponse"

text \<open>
  \<open>sendRequest\<close> returns the body or an error; beside it the model returns the
  requests it handed to the HTTP client. The context only receives a default deadline
  when it has none, and is not used after that; it is left out.
\<close>

definition sendRequest ::
  "'a restEnv \<Rightarrow> 'a httpRequest \<Rightarrow> 'a httpRequest list \<times> (rest_error + bytes)" where
  "sendRequest env req =
     (let (apiKeyID, apiKeySecret) = GetAPIKeyAndSecret env in
      if apiKeyID = [] then ([], Inl (ErrorNew keyIDNotFound))
      else if apiKeySecret = [] then ([], Inl (ErrorNew keySecretNotFound))
      else
        (let req1 = req\<lparr>BasicAuth := Some (apiKeyID, apiKeySecret)\<rparr>;
             req2 = req1\<lparr>Header := (Header req1)(''User-Agent'' \<mapsto> GetUserAgent env)\<rparr>;
             req3 = req2\<lparr>Header := (Header req2)(''X-Akita-Cli-Git-Version'' \<mapsto> GitVersion env)\<rparr>;
             req4 = (if dogfood env
                     then req3\<lparr>Header := (Header req3)(''X-Akita-Dogfood'' \<mapsto> ''true'')\<rparr>
                     else req3)
         in case FromRequest env req4 of
              Inl err \<Rightarrow>
                ([], Inl (ErrorWrap (ClientError err)
                            ''failed to convert HTTP request into retryable request''))
            | Inr retryableReq \<Rightarrow>
                (case Do env retryableReq of
                   Inl err \<Rightarrow> ([retryableReq], Inl (ClientError err))
                 | Inr resp \<Rightarrow>
                     (case Body resp of
                        Inl err \<Rightarrow>
                          ([retryableReq],
                           Inl (ErrorWrap (ClientError err) ''failed to read response body''))
                      | Inr respBody \<Rightarrow>
                          if StatusCode resp < 200 \<or> 299 < StatusCode resp
                          then ([retryableReq], Inl (HTTPError (StatusCode resp) respBody))
                          else ([retryableReq], Inr respBody)))))"

text \<open>
  The request as \<open>sendRequest\<close> hands it on when both credentials are set: with the
  basic authentication, the user agent, the git version and, under the dogfood flag,
  the dogfood header.
\<close>

definition outgoing :: "'a restEnv \<Rightarrow> 'a httpRequest \<Rightarrow> 'a httpRequest" where
  "outgoing env req =
     req\<lparr>BasicAuth := Some (GetAPIKeyAndSecret env),
         Header := (if dogfood env
                    then (Header req)(''User-Agent'' \<mapsto> GetUserAgent env,
                                      ''X-Akita-Cli-Git-Version'' \<mapsto> GitVersion env,
                                      ''X-Akita-Dogfood'' \<mapsto> ''true'')
                    else (Header req)(''User-Agent'' \<mapsto> GetUserAgent env,
                                      ''X-Akita-Cli-Git-Version'' \<mapsto> GitVersion env))\<rparr>"

section \<open>Start-up\<close>

text \<open>
  Modelled from the spec: \<open>apidump.Run\<close>, of package apidump of the repository, which
  is not among the sources (only its caller, the \<open>RunE\<close> of the apidump command, is).
  Section 7 of the specification: missing or invalid credentials are fatal before any
  ingestion starts, and are surfaced to the top-level caller. \<open>Run\<close> makes its first
  call to the remote service through \<open>sendRequest\<close>; when that call returns an error,
  \<open>Run\<close> returns it and nothing is ingested; otherwise the ingestion runs. The
  ingestion is a parameter, from the state of the collectors to their state afterwards
  and the error it ends with, if any.
\<close>

definition Run ::
  "'a restEnv \<Rightarrow> 'a httpRequest \<Rightarrow> ('c \<Rightarrow> 'c \<times> rest_error option) \<Rightarrow> 'c \<Rightarrow>
   'c \<times> rest_error option" where
  "Run env startup ingest c =
     (case snd (sendRequest env startup) of
        Inl err \<Rightarrow> (c, Some err)
      | Inr _ \<Rightarrow> ingest c)"

text \<open>
  The \<open>RunE\<close> of the apidump command: it parses the tags, loads the plugins, calls
  \<open>apidump.Run\<close> and returns its error to the command framework as an \<open>AkitaErr\<close>. The
  outcomes of \<open>tags.FromPairs\<close> and \<open>pluginloader.Load\<close> are parameters; \<open>run\<close> is
  \<open>apidump.Run\<close> on the arguments built from them.
\<close>

datatype command_error =
    PlainError rest_error
  | AkitaErr rest_error

definition RunE ::
  "string + 'tags \<Rightarrow> string + 'plugins \<Rightarrow>
   ('tags \<Rightarrow> 'plugins \<Rightarrow> 'c \<Rightarrow> 'c \<times> rest_error option) \<Rightarrow> 'c \<Rightarrow>
   'c \<times> command_error option" where
  "RunE tagsFromPairs pluginsLoad run c =
     (case tagsFromPairs of
        Inl err \<Rightarrow> (c, Some (PlainError (ErrorWrap (ClientError err) ''failed to parse tags'')))
      | Inr tagMap \<Rightarrow>
          (case pluginsLoad of
             Inl err \<Rightarrow>
               (c, Some (PlainError (ErrorWrap (ClientError err) ''failed to load plugins'')))
           | Inr loaded \<Rightarrow>
               (case run tagMap loaded c of
                  (c', Some err) \<Rightarrow> (c', Some (AkitaErr err))
                | (c', None) \<Rightarrow> (c', None))))"

section \<open>Reading the effects\<close>

text \<open>
  The exchanges handed to \<open>queueUpload\<close>, the plugins whose \<open>Transform\<close> was called,
  and the batches of reports submitted, each in the order of the calls.
\<close>

fun emitted :: "'w effect list \<Rightarrow> 'w witnessWithInfo list" where
  "emitted [] = []"
| "emitted (QueueUpload w # es) = w # emitted es"
| "emitted (_ # es) = emitted es"

fun transformCalls :: "'w effect list \<Rightarrow> string list" where
  "transformCalls [] = []"
| "transformCalls (TransformCall n _ # es) = n # transformCalls es"
| "transformCalls (_ # es) = transformCalls es"

fun obfuscateCalls :: "'w effect list \<Rightarrow> 'w list" where
  "obfuscateCalls [] = []"
| "obfuscateCalls (ObfuscateCall m # es) = m # obfuscateCalls es"
| "obfuscateCalls (_ # es) = obfuscateCalls es"

fun shipped :: "'w effect list \<Rightarrow> WitnessReport list list" where
  "shipped [] = []"
| "shipped (ReportWitnessesCall _ _ rs # es) = rs # shipped es"
| "shipped (_ # es) = shipped es"

text \<open>
  Of a batch, in its order: the reports of the items that \<open>toReport\<close> converts, and the
  errors of the others.
\<close>

definition converted ::
  "('q, 'r, 'w) deps \<Rightarrow> NetworkDirection \<Rightarrow> 'w witnessWithInfo list \<Rightarrow> WitnessReport list" where
  "converted d direction ws =
     concat (map (\<lambda>w. case toReport d w direction of Inr r \<Rightarrow> [r] | Inl _ \<Rightarrow> []) ws)"

definition conversionErrors ::
  "('q, 'r, 'w) deps \<Rightarrow> NetworkDirection \<Rightarrow> 'w witnessWithInfo list \<Rightarrow> string list" where
  "conversionErrors d direction ws =
     concat (map (\<lambda>w. case toReport d w direction of Inr _ \<Rightarrow> [] | Inl err \<Rightarrow> [err]) ws)"

text \<open>The upload batch has the two bounds \<open>NewBackendCollector\<close> gives it.\<close>

definition batch_configured :: "'w BackendCollector \<Rightarrow> bool" where
  "batch_configured c =
     (bufSize (uploadBatch c) = uploadBatchMaxSize \<and>
      flushDuration (uploadBatch c) = uploadBatchFlushDuration)"

text \<open>The frame carries an HTTP request: what the type switch of \<open>Process\<close> records.\<close>

definition isHTTPRequest :: "('q, 'r) ParsedNetworkContent \<Rightarrow> bool" where
  "isHTTPRequest content = (case content of ContentHTTPRequest _ \<Rightarrow> True | _ \<Rightarrow> False)"

text \<open>
  A sequence of calls of \<open>Process\<close> on one collector, each with what it reads from
  outside and its frame: the calls made by all of them, in order, and the collector
  at the end.
\<close>

fun Process_all ::
  "('q, 'r, 'w) deps \<Rightarrow> (callEnv \<times> ('q, 'r) ParsedNetworkTraffic) list \<Rightarrow> 'w BackendCollector \<Rightarrow>
   'w effect list \<times> 'w BackendCollector" where
  "Process_all d [] c = ([], c)"
| "Process_all d ((env, t) # rest) c =
     (let (es, c1) = Process d env t c;
          (es', c2) = Process_all d rest c1
      in (es @ es', c2))"

text \<open>
  The pairing key under which \<open>Process\<close> looks a frame up: none for a frame that is
  not HTTP or does not parse.
\<close>

definition keyOf :: "('q, 'r, 'w) deps \<Rightarrow> ('q, 'r) ParsedNetworkTraffic \<Rightarrow> WitnessID option" where
  "keyOf d t =
     (case Content t of
        ContentOther \<Rightarrow> None
      | _ \<Rightarrow> (case ParseHTTP d (Content t) of
                Inl _ \<Rightarrow> None
              | Inr partial \<Rightarrow> Some (PairKey partial)))"

text \<open>
  An entry observed at \<open>obs\<close> is not expired by the deferred sweep of a call that
  finds \<open>lastCall\<close> as the time of the last call: no sweep is due, or the entry is
  not older than a minute. \<open>staysCached\<close> says so of a sequence of calls, each
  finding the clock reading of the one before.
\<close>

definition notSwept :: "Time \<Rightarrow> Time \<Rightarrow> callEnv \<Rightarrow> bool" where
  "notSwept obs lastCall env =
     (IsZero lastCall \<or> now env - lastCall \<le> 30 * 1000000000
      \<or> now env - 60 * 1000000000 \<le> obs)"

fun staysCached :: "Time \<Rightarrow> Time \<Rightarrow> callEnv list \<Rightarrow> bool" where
  "staysCached obs lastCall [] = True"
| "staysCached obs lastCall (env # envs) =
     (notSwept obs lastCall env \<and> staysCached obs (now env) envs)"

text \<open>
  The two frames of one exchange carry mirrored addressing: the response goes from
  where the request went to, to where it came from.
\<close>

definition mirrored ::
  "('q, 'r) ParsedNetworkTraffic \<Rightarrow> ('q, 'r) ParsedNetworkTraffic \<Rightarrow> bool" where
  "mirrored a b =
     (SrcIP b = DstIP a \<and> DstIP b = SrcIP a \<and> SrcPort b = DstPort a \<and> DstPort b = SrcPort a)"

text \<open>
  Every entry of the pair cache is stored under its own identifier: \<open>Process\<close> files a
  new entry with \<open>id\<close> set to the pairing key it is stored under.
\<close>

definition cache_ok :: "'w BackendCollector \<Rightarrow> bool" where
  "cache_ok c = (\<forall>k e. pairCache c k = Some e \<longrightarrow> id_field e = k)"

text \<open>
  The entry under a key is older than the cutoff: the test of \<open>flushPairCache\<close>, as a
  predicate of the cache.
\<close>

definition expired :: "Time \<Rightarrow> (WitnessID \<rightharpoonup> 'w witnessWithInfo) \<Rightarrow> WitnessID \<Rightarrow> bool" where
  "expired cutoffTime m k =
     (case m k of None \<Rightarrow> False | Some e \<Rightarrow> Before (observationTime e) cutoffTime)"

text \<open>An order of visit of the range over the pair cache: every key, once.\<close>

definition visits :: "WitnessID list \<Rightarrow> 'w BackendCollector \<Rightarrow> bool" where
  "visits ks c = (distinct ks \<and> set ks = dom (pairCache c))"

text \<open>
  The transform chain by itself: each plugin is given the witness the plugins before it
  left; the result is the witness after the last plugin, or \<open>None\<close> as soon as one
  returns an error.
\<close>

fun chain :: "'w AkitaPlugin list \<Rightarrow> 'w \<Rightarrow> 'w option" where
  "chain [] m = Some m"
| "chain (p # ps) m = (case Transform p m of Inl _ \<Rightarrow> None | Inr m' \<Rightarrow> chain ps m')"

section \<open>A small instance, for evaluation\<close>

text \<open>
  An instance of the parameters on which the definitions can be run: a frame's content
  is a sequence number and a text, the pairing key is the sequence number, a witness is
  a text, merging joins the two sides, hashing and marshalling fail on the empty
  witness.
\<close>

definition ex_deps :: "(nat \<times> string, nat \<times> string, string) deps" where
  "ex_deps =
     \<lparr>ParseHTTP = (\<lambda>c. case c of
          ContentHTTPRequest (k, s) \<Rightarrow>
            if s = [] then Inl ''empty request''
            else Inr \<lparr>PairKey = of_nat k, Witness = ''Q:'' @ s\<rparr>
        | ContentHTTPResponse (k, s) \<Rightarrow>
            if s = [] then Inl ''empty response''
            else Inr \<lparr>PairKey = of_nat k, Witness = ''R:'' @ s\<rparr>
        | ContentOther \<Rightarrow> Inl ''not HTTP''),
      MergeWitness = (\<lambda>a b. a @ ''+'' @ b),
      obfuscate = map (\<lambda>_. CHR ''x''),
      HashProto = (\<lambda>w. if w = [] then Inl ''nil message'' else Inr (rev w)),
      Marshal = (\<lambda>w. if w = [] then Inl ''nil message'' else Inr w),
      EncodeToString = id\<rparr>"

definition ex_ok :: "string AkitaPlugin" where
  "ex_ok = \<lparr>Name = ''mark'', Transform = (\<lambda>m. Inr (m @ ''!''))\<rparr>"

definition ex_veto :: "string AkitaPlugin" where
  "ex_veto = \<lparr>Name = ''veto'', Transform = (\<lambda>m. Inl ''refused'')\<rparr>"

definition ex_client :: "Duration \<Rightarrow> LearnSessionID \<Rightarrow> WitnessReport list \<Rightarrow> string option" where
  "ex_client timeout lrn reports = (if lrn = 0 then Some ''no such session'' else None)"

definition ex_collector :: "string AkitaPlugin list \<Rightarrow> string BackendCollector" where
  "ex_collector ps = NewBackendCollector 1 2 ex_client Inbound ps"

definition ex_w :: "nat \<Rightarrow> string \<Rightarrow> string witnessWithInfo" where
  "ex_w k s =
     \<lparr>srcIP = ''abcd'', srcPort = 5000, dstIP = ''efgh'', dstPort = 80,
      observationTime = 7, id_field = of_nat k, witness = s\<rparr>"

definition ex_request :: "nat \<Rightarrow> string \<Rightarrow> Time \<Rightarrow> (nat \<times> string, nat \<times> string) ParsedNetworkTraffic" where
  "ex_request k s t =
     \<lparr>SrcIP = ''cli'', SrcPort = 5000, DstIP = ''srv'', DstPort = 80,
      Content = ContentHTTPRequest (k, s), ObservationTime = t\<rparr>"

definition ex_response :: "nat \<Rightarrow> string \<Rightarrow> Time \<Rightarrow> (nat \<times> string, nat \<times> string) ParsedNetworkTraffic" where
  "ex_response k s t =
     \<lparr>SrcIP = ''srv'', SrcPort = 80, DstIP = ''cli'', DstPort = 5000,
      Content = ContentHTTPResponse (k, s), ObservationTime = t\<rparr>"

text \<open>A collector whose upload batch already holds nine exchanges.\<close>

definition ex_nine :: "string BackendCollector" where
  "ex_nine =
     (ex_collector [])\<lparr>uploadBatch :=
        \<lparr>bufSize = 10, flushDuration = 30000000000,
         buf = map (\<lambda>k. (5000000000, ex_w k ''a'')) [1, 2, 3, 4, 5, 6, 7, 8, 9]\<rparr>\<rparr>"

text \<open>
  A REST environment with both credentials set, whose server answers every request
  with the given status code and body (or failure to read the body).
\<close>

definition ex_restEnv :: "int \<Rightarrow> string + bytes \<Rightarrow> unit restEnv" where
  "ex_restEnv statusCode body =
     \<lparr>GetAPIKeyAndSecret = (''apk_1'', ''secret''),
      GetUserAgent = ''akita-cli'',
      GitVersion = ''abc123'',
      dogfood = False,
      FromRequest = Inr,
      Do = (\<lambda>r. Inr \<lparr>StatusCode = statusCode, Body = body\<rparr>)\<rparr>"

definition ex_httpRequest :: "unit httpRequest" where
  "ex_httpRequest = \<lparr>BasicAuth = None, Header = Map.empty, payload = ()\<rparr>"

text \<open>
  An archive for the replay: a request or a response is a text, and converts unless it
  is empty. Ten entries, of which the third, the sixth and the ninth have a malformed
  response.
\<close>

definition ex_convertRequest :: "string \<Rightarrow> string + string HTTPRequest" where
  "ex_convertRequest s =
     (if s = [] then Inl ''malformed request''
      else Inr \<lparr>StreamID_req = 0, Seq_req = 0, fromHAR_req = s\<rparr>)"

definition ex_convertResponse :: "string \<Rightarrow> string + string HTTPResponse" where
  "ex_convertResponse s =
     (if s = [] then Inl ''malformed response''
      else Inr \<lparr>StreamID_resp = 0, Seq_resp = 0, fromHAR_resp = s\<rparr>)"

definition ex_entry :: "string \<Rightarrow> string \<Rightarrow> (string, string) HAREntry" where
  "ex_entry q r = \<lparr>Request = Some q, Response = Some r, StartedDateTime = 1000\<rparr>"

definition ex_archive :: "(string, string) HAREntry list" where
  "ex_archive =
     [ex_entry ''a'' ''A'', ex_entry ''b'' ''B'', ex_entry ''c'' '''',
      ex_entry ''d'' ''D'', ex_entry ''e'' ''E'', ex_entry ''f'' '''',
      ex_entry ''g'' ''G'', ex_entry ''h'' ''H'', ex_entry ''i'' '''',
      ex_entry ''j'' ''J'']"

section \<open>Effects of queueUpload and of the upload\<close>

lemma emitted_append: "emitted (xs @ ys) = emitted xs @ emitted ys"
  by (induction xs rule: emitted.induct) auto

lemma transformCalls_append: "transformCalls (xs @ ys) = transformCalls xs @ transformCalls ys"
  by (induction xs rule: transformCalls.induct) auto

lemma obfuscateCalls_append: "obfuscateCalls (xs @ ys) = obfuscateCalls xs @ obfuscateCalls ys"
  by (induction xs rule: obfuscateCalls.induct) auto

lemma shipped_append: "shipped (xs @ ys) = shipped xs @ shipped ys"
  by (induction xs rule: shipped.induct) auto

lemma loop_append:
  "queueUpload_loop ps1 m = (es1, Some m1) \<Longrightarrow>
   queueUpload_loop (ps1 @ ps2) m =
     (case queueUpload_loop ps2 m1 of (es2, r) \<Rightarrow> (es1 @ es2, r))"
  by (induction ps1 arbitrary: m es1) (auto split: sum.splits prod.splits)

lemma loop_success_calls:
  "queueUpload_loop ps m = (es, Some m') \<Longrightarrow>
   transformCalls es = map Name ps \<and> obfuscateCalls es = [] \<and> shipped es = []
   \<and> (\<forall>e \<in> set es. \<exists>n x. e = TransformCall n x)"
  by (induction ps arbitrary: m es) (auto split: sum.splits prod.splits)

lemma loop_emitted:
  "queueUpload_loop ps m = (es, r) \<Longrightarrow> emitted es = []"
  by (induction ps arbitrary: m es) (auto split: sum.splits prod.splits)

lemma uw_loop_emitted: "uploadWitnesses_loop d dr ws = (es, rs) \<Longrightarrow> emitted es = []"
  by (induction ws arbitrary: es rs) (auto split: sum.splits prod.splits)

lemma uw_emitted: "emitted (uploadWitnesses d c ws) = []"
  by (auto simp: uploadWitnesses_def Let_def emitted_append dest: uw_loop_emitted
      split: prod.splits option.splits)

lemma add_emitted: "InMemory_Add (uploadWitnesses d c) t i b = (es, b') \<Longrightarrow> emitted es = []"
  by (auto simp: InMemory_Add_def InMemory_flush_def Let_def uw_emitted split: if_splits)

lemma queueUpload_emitted: "emitted (fst (queueUpload d t w c)) = [w]"
  by (auto simp: queueUpload_def Let_def emitted_append
      dest: loop_emitted add_emitted split: prod.splits option.splits)

lemma queueUpload_pairCache [simp]: "pairCache (snd (queueUpload d t w c)) = pairCache c"
  by (auto simp: queueUpload_def Let_def split: prod.splits option.splits)

section \<open>The transform chain\<close>

lemma loop_chain: "snd (queueUpload_loop ps m) = chain ps m"
  by (induction ps arbitrary: m) (auto split: sum.splits simp: case_prod_beta)

lemma loop_fail:
  assumes "chain ps1 m = Some m1" and "Transform p m1 = Inl err"
  shows "\<exists>es1. queueUpload_loop (ps1 @ p # ps2) m =
           (es1 @ [TransformCall (Name p) m1,
                   Errorf ''plugin %q returned error, skipping: %v'' [Name p, err]], None)
         \<and> transformCalls es1 = map Name ps1
         \<and> (\<forall>e \<in> set es1. \<exists>n x. e = TransformCall n x)"
proof -
  obtain es1 r where l: "queueUpload_loop ps1 m = (es1, r)"
    by (cases "queueUpload_loop ps1 m")
  with assms(1) loop_chain[of ps1 m] have l': "queueUpload_loop ps1 m = (es1, Some m1)"
    by simp
  from loop_append[OF l', of "p # ps2"] assms(2)
  have "queueUpload_loop (ps1 @ p # ps2) m =
           (es1 @ [TransformCall (Name p) m1,
                   Errorf ''plugin %q returned error, skipping: %v'' [Name p, err]], None)"
    by simp
  with loop_success_calls[OF l'] show ?thesis by blast
qed

text \<open>
  Claim C5. Every exchange handed to \<open>queueUpload\<close> goes through the plugins in the
  order they were registered, each given the witness its predecessors left. When the
  plugins before \<open>p\<close> succeed and \<open>p\<close> returns an error, the calls made are the
  entry, the \<open>Transform\<close> of each of them in order, the \<open>Transform\<close> of \<open>p\<close> and one
  error print carrying the name of \<open>p\<close> and its error; nothing is obfuscated, nothing
  is added to the upload batch, and the collector is left as it was, so a later
  exchange is handled as if this one had never come. When every plugin succeeds, the
  \<open>Transform\<close> calls of all plugins in order come first, then \<open>obfuscate\<close> on the
  witness the last plugin left, then the add to the upload batch.
\<close>

theorem queueUpload_plugin_chain:
  "(plugins c = ps1 @ p # ps2 \<and> chain ps1 (witness w) = Some m1 \<and> Transform p m1 = Inl err \<longrightarrow>
      (\<exists>es1. queueUpload d t w c =
                (QueueUpload w # es1 @
                   [TransformCall (Name p) m1,
                    Errorf ''plugin %q returned error, skipping: %v'' [Name p, err]], c)
           \<and> transformCalls es1 = map Name ps1
           \<and> (\<forall>e \<in> set es1. \<exists>n x. e = TransformCall n x))
      \<and> queueUpload d t' w' (snd (queueUpload d t w c)) = queueUpload d t' w' c)
   \<and> (chain (plugins c) (witness w) = Some m \<longrightarrow>
      (\<exists>es es' b. queueUpload d t w c =
                (QueueUpload w # es @ ObfuscateCall m # es', c\<lparr>uploadBatch := b\<rparr>)
           \<and> transformCalls es = map Name (plugins c)
           \<and> (\<forall>e \<in> set es. \<exists>n x. e = TransformCall n x)
           \<and> InMemory_Add (uploadWitnesses d c) t (w\<lparr>witness := obfuscate d m\<rparr>) (uploadBatch c)
               = (es', b)))"
proof (intro conjI impI)
  assume a: "plugins c = ps1 @ p # ps2 \<and> chain ps1 (witness w) = Some m1 \<and> Transform p m1 = Inl err"
  from loop_fail[of ps1 "witness w" m1 p err ps2] a
  obtain es1 where e: "queueUpload_loop (plugins c) (witness w) =
           (es1 @ [TransformCall (Name p) m1,
                   Errorf ''plugin %q returned error, skipping: %v'' [Name p, err]], None)"
    "transformCalls es1 = map Name ps1" "\<forall>e \<in> set es1. \<exists>n x. e = TransformCall n x"
    by auto
  have q: "queueUpload d t w c =
                (QueueUpload w # es1 @
                   [TransformCall (Name p) m1,
                    Errorf ''plugin %q returned error, skipping: %v'' [Name p, err]], c)"
    using e(1) by (simp add: queueUpload_def)
  with e show "\<exists>es1. queueUpload d t w c =
                (QueueUpload w # es1 @
                   [TransformCall (Name p) m1,
                    Errorf ''plugin %q returned error, skipping: %v'' [Name p, err]], c)
           \<and> transformCalls es1 = map Name ps1
           \<and> (\<forall>e \<in> set es1. \<exists>n x. e = TransformCall n x)"
    by blast
  from q show "queueUpload d t' w' (snd (queueUpload d t w c)) = queueUpload d t' w' c"
    by simp
next
  assume a: "chain (plugins c) (witness w) = Some m"
  obtain es r where l: "queueUpload_loop (plugins c) (witness w) = (es, r)"
    by (cases "queueUpload_loop (plugins c) (witness w)")
  with a loop_chain[of "plugins c" "witness w"]
  have l': "queueUpload_loop (plugins c) (witness w) = (es, Some m)" by simp
  obtain es' b where ad:
    "InMemory_Add (uploadWitnesses d c) t (w\<lparr>witness := obfuscate d m\<rparr>) (uploadBatch c) = (es', b)"
    by (cases "InMemory_Add (uploadWitnesses d c) t (w\<lparr>witness := obfuscate d m\<rparr>) (uploadBatch c)")
  have "queueUpload d t w c = (QueueUpload w # es @ ObfuscateCall m # es', c\<lparr>uploadBatch := b\<rparr>)"
    using l' ad by (simp add: queueUpload_def)
  with loop_success_calls[OF l'] ad
  show "\<exists>es es' b. queueUpload d t w c =
                (QueueUpload w # es @ ObfuscateCall m # es', c\<lparr>uploadBatch := b\<rparr>)
           \<and> transformCalls es = map Name (plugins c)
           \<and> (\<forall>e \<in> set es. \<exists>n x. e = TransformCall n x)
           \<and> InMemory_Add (uploadWitnesses d c) t (w\<lparr>witness := obfuscate d m\<rparr>) (uploadBatch c)
               = (es', b)"
    by blast
qed

theorem queueUpload_plugin_chain_witness:
  "plugins (ex_collector [ex_ok, ex_veto, ex_ok]) = [ex_ok] @ ex_veto # [ex_ok]
   \<and> chain [ex_ok] (witness (ex_w 4 ''Q:a'')) = Some ''Q:a!''
   \<and> Transform ex_veto ''Q:a!'' = Inl ''refused''
   \<and> chain (plugins (ex_collector [ex_ok, ex_ok])) (witness (ex_w 4 ''Q:a'')) = Some ''Q:a!!''
   \<and> queueUpload ex_deps 9 (ex_w 4 ''Q:a'') (ex_collector [ex_ok, ex_veto, ex_ok]) =
     ([QueueUpload (ex_w 4 ''Q:a''), TransformCall ''mark'' ''Q:a'', TransformCall ''veto'' ''Q:a!'',
       Errorf ''plugin %q returned error, skipping: %v'' [''veto'', ''refused'']],
      ex_collector [ex_ok, ex_veto, ex_ok])
   \<and> fst (queueUpload ex_deps 9 (ex_w 4 ''Q:a'') (ex_collector [ex_ok, ex_ok])) =
     [QueueUpload (ex_w 4 ''Q:a''), TransformCall ''mark'' ''Q:a'', TransformCall ''mark'' ''Q:a!'',
      ObfuscateCall ''Q:a!!'']"
  using queueUpload_plugin_chain [of "ex_collector [ex_ok, ex_veto, ex_ok]" "[ex_ok]" ex_veto "[ex_ok]"
      "ex_w 4 ''Q:a''" "''Q:a!''" "''refused''" ex_deps 9 9 "ex_w 4 ''Q:a''" "[]"]
    queueUpload_plugin_chain [of "ex_collector [ex_ok, ex_ok]" "[]" ex_veto "[]"
      "ex_w 4 ''Q:a''" "[]" "[]" ex_deps 9 9 "ex_w 4 ''Q:a''" "''Q:a!!''"]
  by (simp add: queueUpload_def ex_collector_def NewBackendCollector_def ex_ok_def ex_veto_def
      ex_w_def ex_deps_def InMemory_Add_def NewInMemory_def uploadBatchMaxSize_def)

section \<open>The flush of the pair cache\<close>

lemma queueUpload_fields [simp]:
  "plugins (snd (queueUpload d t w c)) = plugins c"
  "dir (snd (queueUpload d t w c)) = dir c"
  "learnClient (snd (queueUpload d t w c)) = learnClient c"
  "learnSessionID (snd (queueUpload d t w c)) = learnSessionID c"
  "serviceID (snd (queueUpload d t w c)) = serviceID c"
  "lastProcessTime (snd (queueUpload d t w c)) = lastProcessTime c"
  by (auto simp: queueUpload_def Let_def split: prod.splits option.splits)

lemma flush_pairCache:
  "pairCache (snd (flushPairCache d t cf ks c)) k =
     (if k \<in> set ks \<and> expired cf (pairCache c) k then None else pairCache c k)"
proof (induction ks arbitrary: c)
  case Nil
  show ?case by simp
next
  case (Cons a ks)
  show ?case
  proof (cases "pairCache c a")
    case None
    then show ?thesis using Cons.IH[of c] by (auto simp: expired_def)
  next
    case (Some e)
    show ?thesis
    proof (cases "Before (observationTime e) cf")
      case False
      with Some show ?thesis using Cons.IH[of c] by (auto simp: expired_def)
    next
      case True
      let ?c1 = "snd (queueUpload d t e c)"
      let ?c2 = "?c1\<lparr>pairCache := (pairCache ?c1)(a := None)\<rparr>"
      have step: "snd (flushPairCache d t cf (a # ks) c) = snd (flushPairCache d t cf ks ?c2)"
        using Some True by (simp add: case_prod_beta Let_def)
      show ?thesis
        unfolding step using Cons.IH[of ?c2] Some True
        by (auto simp: expired_def)
    qed
  qed
qed

lemma flush_fields [simp]:
  "plugins (snd (flushPairCache d t cf ks c)) = plugins c"
  "dir (snd (flushPairCache d t cf ks c)) = dir c"
  "learnClient (snd (flushPairCache d t cf ks c)) = learnClient c"
  "learnSessionID (snd (flushPairCache d t cf ks c)) = learnSessionID c"
  "serviceID (snd (flushPairCache d t cf ks c)) = serviceID c"
  "lastProcessTime (snd (flushPairCache d t cf ks c)) = lastProcessTime c"
  by (induction ks arbitrary: c; simp add: case_prod_beta Let_def split: option.splits)+

lemma flush_emitted:
  "distinct ks \<Longrightarrow>
   emitted (fst (flushPairCache d t cf ks c)) =
     map (\<lambda>k. the (pairCache c k)) (filter (expired cf (pairCache c)) ks)"
proof (induction ks arbitrary: c)
  case Nil
  show ?case by simp
next
  case (Cons a ks)
  then have d: "distinct ks" and a: "a \<notin> set ks" by auto
  show ?case
  proof (cases "pairCache c a")
    case None
    then have "\<not> expired cf (pairCache c) a" by (simp add: expired_def)
    with None show ?thesis using Cons.IH[OF d, of c] by simp
  next
    case (Some e)
    show ?thesis
    proof (cases "Before (observationTime e) cf")
      case False
      with Some have "\<not> expired cf (pairCache c) a" by (simp add: expired_def)
      with Some False show ?thesis using Cons.IH[OF d, of c] by simp
    next
      case True
      define c2 where
        "c2 = (snd (queueUpload d t e c))\<lparr>pairCache := (pairCache (snd (queueUpload d t e c)))(a := None)\<rparr>"
      have step: "fst (flushPairCache d t cf (a # ks) c) =
                    fst (queueUpload d t e c) @ fst (flushPairCache d t cf ks c2)"
        using Some True by (simp add: case_prod_beta Let_def c2_def)
      have same: "\<And>k. k \<in> set ks \<Longrightarrow> pairCache c2 k = pairCache c k"
        using a by (auto simp: c2_def)
      have f: "filter (expired cf (pairCache c2)) ks = filter (expired cf (pairCache c)) ks"
        by (rule filter_cong) (simp_all add: expired_def same)
      have m: "map (\<lambda>k. the (pairCache c2 k)) (filter (expired cf (pairCache c)) ks) =
               map (\<lambda>k. the (pairCache c k)) (filter (expired cf (pairCache c)) ks)"
        by (rule map_cong) (simp_all add: same)
      have ex: "expired cf (pairCache c) a"
        using Some True by (simp add: expired_def)
      show ?thesis
        unfolding step emitted_append queueUpload_emitted Cons.IH[OF d, of c2] f m
        using Some ex by simp
    qed
  qed
qed

section \<open>Process: its body and its deferred sweep\<close>

lemma time_Sub_gt:
  "minDuration \<le> i \<Longrightarrow> i < maxDuration \<Longrightarrow> (i < time_Sub a b) = (i < a - b)"
  by (auto simp: time_Sub_def Let_def)

lemma interval_elapsed:
  "(pairCacheCleanupInterval < time_Sub a b) = (30 * 1000000000 < a - b)"
  using time_Sub_gt[of pairCacheCleanupInterval a b]
  by (simp add: pairCacheCleanupInterval_def Second_def minDuration_def maxDuration_def)

lemma expiration_cutoff:
  "time_Add a (- pairCacheExpiration) = a - 60 * 1000000000"
  by (simp add: time_Add_def pairCacheExpiration_def Minute_def Second_def)

lemma Process_deferred_idle:
  "IsZero (lastProcessTime c) \<or> now env - lastProcessTime c \<le> 30 * 1000000000 \<Longrightarrow>
   Process_deferred d env c = ([], c\<lparr>lastProcessTime := now env\<rparr>)"
  by (auto simp: Process_deferred_def interval_elapsed)

lemma Process_deferred_sweep:
  "\<not> IsZero (lastProcessTime c) \<Longrightarrow> 30 * 1000000000 < now env - lastProcessTime c \<Longrightarrow>
   Process_deferred d env c =
     (fst (flushPairCache d (now env) (now env - 60 * 1000000000) (visit env) c),
      (snd (flushPairCache d (now env) (now env - 60 * 1000000000) (visit env) c))
        \<lparr>lastProcessTime := now env\<rparr>)"
  by (simp add: Process_deferred_def interval_elapsed expiration_cutoff case_prod_beta)

lemma body_other:
  "Content t = ContentOther \<Longrightarrow> Process_body d tn t c = ([], c)"
  by (simp add: Process_body_def)

lemma body_parse_error:
  "Content t \<noteq> ContentOther \<Longrightarrow> ParseHTTP d (Content t) = Inl err \<Longrightarrow>
   Process_body d tn t c = ([Debugf ''Failed to parse HTTP, skipping: %v\<newline>'' [err]], c)"
  by (cases "Content t") (simp_all add: Process_body_def)

lemma body_insert:
  "Content t \<noteq> ContentOther \<Longrightarrow> ParseHTTP d (Content t) = Inr p \<Longrightarrow>
   pairCache c (PairKey p) = None \<Longrightarrow>
   Process_body d tn t c =
     ([], c\<lparr>pairCache := (pairCache c)(PairKey p \<mapsto>
            \<lparr>srcIP = SrcIP t, srcPort = word_of_int (SrcPort t),
             dstIP = DstIP t, dstPort = word_of_int (DstPort t),
             observationTime = ObservationTime t, id_field = PairKey p,
             witness = Witness p\<rparr>)\<rparr>)"
  by (cases "Content t") (simp_all add: Process_body_def)

lemma body_pair_response:
  "Content t = ContentHTTPResponse r \<Longrightarrow> ParseHTTP d (Content t) = Inr p \<Longrightarrow>
   pairCache c (PairKey p) = Some pair \<Longrightarrow>
   Process_body d tn t c =
     queueUpload d tn (pair\<lparr>witness := MergeWitness d (witness pair) (Witness p)\<rparr>)
       (c\<lparr>pairCache := (pairCache c)(PairKey p := None)\<rparr>)"
  by (simp add: Process_body_def)

lemma body_pair_request:
  "Content t = ContentHTTPRequest q \<Longrightarrow> ParseHTTP d (Content t) = Inr p \<Longrightarrow>
   pairCache c (PairKey p) = Some pair \<Longrightarrow>
   Process_body d tn t c =
     queueUpload d tn
       (pair\<lparr>witness := MergeWitness d (witness pair) (Witness p),
             srcIP := dstIP pair, dstIP := srcIP pair,
             srcPort := dstPort pair, dstPort := srcPort pair\<rparr>)
       (c\<lparr>pairCache := (pairCache c)(PairKey p := None)\<rparr>)"
  by (simp add: Process_body_def)

lemma body_lastProcessTime [simp]:
  "lastProcessTime (snd (Process_body d tn t c)) = lastProcessTime c"
  by (cases "Content t"; cases "ParseHTTP d (Content t)";
      cases "pairCache c (PairKey (projr (ParseHTTP d (Content t))))")
     (simp_all add: Process_body_def Let_def)

lemma Process_unfold:
  "Process d env t c =
     (fst (Process_body d (now env) t c) @
        fst (Process_deferred d env (snd (Process_body d (now env) t c))),
      snd (Process_deferred d env (snd (Process_body d (now env) t c))))"
  by (simp add: Process_def case_prod_beta)

lemma Tick_pairCache: "pairCache (snd (Tick d tn c)) = pairCache c"
  by (simp add: Tick_def case_prod_beta)

lemma flush_batch_emitted:
  "emitted (fst (InMemory_flush (uploadWitnesses d c) b)) = []"
  by (simp add: InMemory_flush_def uw_emitted)

lemma Tick_emitted: "emitted (fst (Tick d tn c)) = []"
  by (simp add: Tick_def case_prod_beta InMemory_tick_def flush_batch_emitted
      split: list.splits)

lemma deferred_lastProcessTime: "lastProcessTime (snd (Process_deferred d env c)) = now env"
  by (simp add: Process_deferred_def case_prod_beta)

text \<open>
  Claim C10. The sweep of the pair cache is part of \<open>Process\<close> and of nothing else. A
  new collector has the zero instant as the time of its last call. When the time of
  the last call is zero, or at most 30 seconds have gone by since it, \<open>Process\<close> does
  what its body does and records the clock reading, with no sweep; otherwise the
  deferred function sweeps with the cutoff one minute before the clock reading. Every
  call leaves the clock reading as the time of the last call. Between calls only the
  time trigger of the batcher runs, and it leaves the pair cache as it is and hands no
  cache entry to \<open>queueUpload\<close>: an unmatched entry stays cached, however old, until the
  next \<open>Process\<close> or \<open>Close\<close>.
\<close>

theorem Process_sweep_is_lazy:
  "lastProcessTime (NewBackendCollector svc lrn lc direction ps) = 0
   \<and> (IsZero (lastProcessTime c) \<or> now env - lastProcessTime c \<le> 30 * 1000000000 \<longrightarrow>
        Process d env t c =
          (fst (Process_body d (now env) t c),
           (snd (Process_body d (now env) t c))\<lparr>lastProcessTime := now env\<rparr>))
   \<and> (\<not> IsZero (lastProcessTime c) \<and> 30 * 1000000000 < now env - lastProcessTime c \<longrightarrow>
        Process d env t c =
          (fst (Process_body d (now env) t c) @
             fst (flushPairCache d (now env) (now env - 60 * 1000000000) (visit env)
                    (snd (Process_body d (now env) t c))),
           (snd (flushPairCache d (now env) (now env - 60 * 1000000000) (visit env)
                    (snd (Process_body d (now env) t c))))\<lparr>lastProcessTime := now env\<rparr>))
   \<and> lastProcessTime (snd (Process d env t c)) = now env
   \<and> pairCache (snd (Tick d tn c)) = pairCache c
   \<and> emitted (fst (Tick d tn c)) = []"
proof (intro conjI impI)
  show "lastProcessTime (NewBackendCollector svc lrn lc direction ps) = 0"
    by (simp add: NewBackendCollector_def)
next
  assume "IsZero (lastProcessTime c) \<or> now env - lastProcessTime c \<le> 30 * 1000000000"
  then have "Process_deferred d env (snd (Process_body d (now env) t c)) =
               ([], (snd (Process_body d (now env) t c))\<lparr>lastProcessTime := now env\<rparr>)"
    by (intro Process_deferred_idle) simp
  then show "Process d env t c =
          (fst (Process_body d (now env) t c),
           (snd (Process_body d (now env) t c))\<lparr>lastProcessTime := now env\<rparr>)"
    by (simp add: Process_unfold)
next
  assume "\<not> IsZero (lastProcessTime c) \<and> 30 * 1000000000 < now env - lastProcessTime c"
  then show "Process d env t c =
          (fst (Process_body d (now env) t c) @
             fst (flushPairCache d (now env) (now env - 60 * 1000000000) (visit env)
                    (snd (Process_body d (now env) t c))),
           (snd (flushPairCache d (now env) (now env - 60 * 1000000000) (visit env)
                    (snd (Process_body d (now env) t c))))\<lparr>lastProcessTime := now env\<rparr>)"
    by (simp add: Process_unfold Process_deferred_sweep)
next
  show "lastProcessTime (snd (Process d env t c)) = now env"
    by (simp add: Process_unfold deferred_lastProcessTime)
next
  show "pairCache (snd (Tick d tn c)) = pairCache c" by (rule Tick_pairCache)
next
  show "emitted (fst (Tick d tn c)) = []" by (rule Tick_emitted)
qed

section \<open>Every expired entry, once\<close>

lemma ex_defs:
  "ex_collector ps = \<lparr>serviceID = 1, learnSessionID = 2, learnClient = ex_client, dir = Inbound,
      pairCache = Map.empty, uploadBatch = \<lparr>bufSize = 10, flushDuration = 30000000000, buf = []\<rparr>,
      lastProcessTime = 0, plugins = ps\<rparr>"
  by (simp add: ex_collector_def NewBackendCollector_def NewInMemory_def uploadBatchMaxSize_def
      uploadBatchFlushDuration_def Second_def)

lemma ex_parse:
  "ParseHTTP ex_deps (ContentHTTPRequest (k, s)) =
     (if s = [] then Inl ''empty request'' else Inr \<lparr>PairKey = of_nat k, Witness = ''Q:'' @ s\<rparr>)"
  "ParseHTTP ex_deps (ContentHTTPResponse (k, s)) =
     (if s = [] then Inl ''empty response'' else Inr \<lparr>PairKey = of_nat k, Witness = ''R:'' @ s\<rparr>)"
  by (simp_all add: ex_deps_def)

lemmas ex_run =
  Process_def Process_body_def Process_deferred_def Close_def Tick_def queueUpload_def
  InMemory_Add_def InMemory_flush_def InMemory_Close_def InMemory_tick_def
  uploadWitnesses_def toReport_def
  ex_defs ex_parse ex_request_def ex_response_def ex_client_def IsZero_def Before_def
  time_Sub_def time_Add_def minDuration_def maxDuration_def
  pairCacheCleanupInterval_def pairCacheExpiration_def Minute_def Second_def

theorem Process_sweep_is_lazy_witness:
  "IsZero (lastProcessTime (ex_collector []))
   \<and> Process ex_deps \<lparr>now = 5000000000, visit = [3]\<rparr> (ex_response 3 ''ok'' 4) (ex_collector []) =
       ([], (ex_collector [])
          \<lparr>pairCache := [3 \<mapsto> \<lparr>srcIP = ''srv'', srcPort = 80, dstIP = ''cli'', dstPort = 5000,
                observationTime = 4, id_field = 3, witness = ''R:ok''\<rparr>],
           lastProcessTime := 5000000000\<rparr>)
   \<and> emitted (fst (Process ex_deps \<lparr>now = 95000000000, visit = [3]\<rparr>
         \<lparr>SrcIP = [], SrcPort = 0, DstIP = [], DstPort = 0, Content = ContentOther,
          ObservationTime = 94000000000\<rparr>
         (snd (Process ex_deps \<lparr>now = 5000000000, visit = [3]\<rparr> (ex_response 3 ''ok'' 4)
                (ex_collector []))))) =
       [\<lparr>srcIP = ''srv'', srcPort = 80, dstIP = ''cli'', dstPort = 5000,
                observationTime = 4, id_field = 3, witness = ''R:ok''\<rparr>]"
  using Process_sweep_is_lazy [of 1 2 ex_client Inbound "[]" "ex_collector []"
      "\<lparr>now = 5000000000, visit = [3]\<rparr>" ex_deps "ex_response 3 ''ok'' 4" 0]
    Process_sweep_is_lazy [of 1 2 ex_client Inbound "[]"
      "snd (Process ex_deps \<lparr>now = 5000000000, visit = [3]\<rparr> (ex_response 3 ''ok'' 4)
                (ex_collector []))"
      "\<lparr>now = 95000000000, visit = [3]\<rparr>" ex_deps
      "\<lparr>SrcIP = [], SrcPort = 0, DstIP = [], DstPort = 0, Content = ContentOther,
          ObservationTime = 94000000000\<rparr>" 0]
  by (simp add: ex_run)

lemma count_list_distinct:
  "distinct xs \<Longrightarrow> count_list xs x = (if x \<in> set xs then 1 else 0)"
  by (induction xs) auto

lemma flush_once:
  assumes ok: "cache_ok c" and vs: "visits ks c" and e: "pairCache c k = Some e"
  shows "count_list (emitted (fst (flushPairCache d t cf ks c))) e =
           (if observationTime e < cf then 1 else 0)"
proof -
  let ?f = "\<lambda>k. the (pairCache c k)"
  let ?ks = "filter (expired cf (pairCache c)) ks"
  from vs have dk: "distinct ks" and sk: "set ks = dom (pairCache c)"
    by (simp_all add: visits_def)
  have idf: "id_field (?f k') = k'" if "k' \<in> set ks" for k'
    using that sk ok by (auto simp: cache_ok_def)
  have "inj_on ?f (set ?ks)"
    by (rule inj_onI) (metis idf filter_is_subset subsetD)
  then have dist: "distinct (map ?f ?ks)"
    using dk by (simp add: distinct_map)
  have mem: "e \<in> set (map ?f ?ks) \<longleftrightarrow> observationTime e < cf"
  proof
    assume "e \<in> set (map ?f ?ks)"
    then obtain k' where k': "k' \<in> set ks" "expired cf (pairCache c) k'" "?f k' = e"
      by auto
    with idf[of k'] e ok have "k' = k" by (auto simp: cache_ok_def)
    with k'(2) e show "observationTime e < cf" by (simp add: expired_def Before_def)
  next
    assume "observationTime e < cf"
    with e have "expired cf (pairCache c) k" by (simp add: expired_def Before_def)
    moreover from e sk have "k \<in> set ks" by auto
    ultimately have "k \<in> set ?ks" by simp
    then have "?f k \<in> ?f ` set ?ks" by (rule imageI)
    then have "?f k \<in> set (map ?f ?ks)" by (simp only: set_map)
    with e show "e \<in> set (map ?f ?ks)" by simp
  qed
  show ?thesis
    unfolding flush_emitted[OF dk] count_list_distinct[OF dist] mem ..
qed

lemma flush_after:
  assumes vs: "visits ks c" and e: "pairCache c k = Some e"
  shows "pairCache (snd (flushPairCache d t cf ks c)) k =
           (if observationTime e < cf then None else Some e)"
proof -
  from vs e have "k \<in> set ks" by (auto simp: visits_def)
  with e show ?thesis by (simp add: flush_pairCache expired_def Before_def)
qed

lemma flush_from_cache:
  assumes vs: "visits ks c"
  shows "set (emitted (fst (flushPairCache d t cf ks c))) \<subseteq> ran (pairCache c)"
proof -
  from vs have dk: "distinct ks" and sk: "set ks = dom (pairCache c)"
    by (simp_all add: visits_def)
  show ?thesis
    unfolding flush_emitted[OF dk] using sk by (auto simp: ran_def)
qed

lemma Close_emitted:
  "emitted (fst (Close d env c)) =
     emitted (fst (flushPairCache d (now env) (now env) (visit env) c))"
  by (simp add: Close_def case_prod_beta emitted_append InMemory_Close_def flush_batch_emitted)

lemma Close_pairCache:
  "pairCache (snd (Close d env c)) =
     pairCache (snd (flushPairCache d (now env) (now env) (visit env) c))"
  by (simp add: Close_def case_prod_beta)

section \<open>The cache invariant, the sweep and Close\<close>

text \<open>The invariant of the pair cache: it holds at the start and every operation keeps it.\<close>

lemma cache_ok_new: "cache_ok (NewBackendCollector svc lrn lc direction ps)"
  by (simp add: cache_ok_def NewBackendCollector_def)

lemma cache_ok_flush: "cache_ok c \<Longrightarrow> cache_ok (snd (flushPairCache d t cf ks c))"
  by (simp add: cache_ok_def flush_pairCache)

lemma cache_ok_delete: "cache_ok c \<Longrightarrow> cache_ok (c\<lparr>pairCache := (pairCache c)(k := None)\<rparr>)"
  by (simp add: cache_ok_def)

lemma cache_ok_body: "cache_ok c \<Longrightarrow> cache_ok (snd (Process_body d tn t c))"
proof (cases "Content t = ContentOther")
  case True
  assume "cache_ok c"
  with True show ?thesis by (simp add: body_other)
next
  case False
  assume ok: "cache_ok c"
  show ?thesis
  proof (cases "ParseHTTP d (Content t)")
    case (Inl err)
    with False ok show ?thesis by (simp add: body_parse_error)
  next
    case (Inr p)
    show ?thesis
    proof (cases "pairCache c (PairKey p)")
      case None
      with False Inr ok show ?thesis by (simp add: body_insert cache_ok_def)
    next
      case (Some pair)
      from ok have "cache_ok (c\<lparr>pairCache := (pairCache c)(PairKey p := None)\<rparr>)"
        by (rule cache_ok_delete)
      then have "\<And>w. cache_ok (snd (queueUpload d tn w
                     (c\<lparr>pairCache := (pairCache c)(PairKey p := None)\<rparr>)))"
        by (simp add: cache_ok_def)
      with False Inr Some show ?thesis
        by (cases "Content t") (simp_all add: body_pair_request body_pair_response)
    qed
  qed
qed

lemma cache_ok_deferred: "cache_ok c \<Longrightarrow> cache_ok (snd (Process_deferred d env c))"
  by (simp add: Process_deferred_def case_prod_beta cache_ok_def flush_pairCache)

lemma cache_ok_Process: "cache_ok c \<Longrightarrow> cache_ok (snd (Process d env t c))"
  by (simp add: Process_unfold cache_ok_deferred cache_ok_body)

lemma cache_ok_Close: "cache_ok c \<Longrightarrow> cache_ok (snd (Close d env c))"
  by (simp add: cache_ok_def Close_pairCache flush_pairCache)

lemma cache_ok_Tick: "cache_ok c \<Longrightarrow> cache_ok (snd (Tick d tn c))"
  by (simp add: cache_ok_def Tick_pairCache)

text \<open>
  What a sweep and \<open>Close\<close> hand over. The deferred function of \<open>Process\<close> is given
  the collector as the body left it; \<open>k\<close> is any key of the pair cache and \<open>e\<close> its
  entry. At a sweep that is triggered, \<open>e\<close> is handed to \<open>queueUpload\<close> exactly once,
  as it was cached (one side only), and removed, if it was observed before the cutoff,
  one minute before the clock reading; otherwise it is not handed over and stays.
  Nothing but entries of the cache is handed over, so what a sweep removed cannot come
  again. \<open>Close\<close> runs the same flush with the clock reading itself as the cutoff.
\<close>

lemma sweep_and_Close_emit_once:
  assumes "cache_ok c" and "visits (visit env) c" and "pairCache c k = Some e"
  shows "(\<not> IsZero (lastProcessTime c) \<and> 30 * 1000000000 < now env - lastProcessTime c \<longrightarrow>
            count_list (emitted (fst (Process_deferred d env c))) e =
              (if observationTime e < now env - 60 * 1000000000 then 1 else 0)
            \<and> pairCache (snd (Process_deferred d env c)) k =
              (if observationTime e < now env - 60 * 1000000000 then None else Some e)
            \<and> set (emitted (fst (Process_deferred d env c))) \<subseteq> ran (pairCache c))
         \<and> count_list (emitted (fst (Close d env c))) e =
              (if observationTime e < now env then 1 else 0)
         \<and> pairCache (snd (Close d env c)) k =
              (if observationTime e < now env then None else Some e)
         \<and> set (emitted (fst (Close d env c))) \<subseteq> ran (pairCache c)"
proof (intro conjI impI)
  assume sw: "\<not> IsZero (lastProcessTime c) \<and> 30 * 1000000000 < now env - lastProcessTime c"
  then have pd: "Process_deferred d env c =
     (fst (flushPairCache d (now env) (now env - 60 * 1000000000) (visit env) c),
      (snd (flushPairCache d (now env) (now env - 60 * 1000000000) (visit env) c))
        \<lparr>lastProcessTime := now env\<rparr>)"
    by (simp add: Process_deferred_sweep)
  show "count_list (emitted (fst (Process_deferred d env c))) e =
              (if observationTime e < now env - 60 * 1000000000 then 1 else 0)"
    unfolding pd fst_conv by (rule flush_once[OF assms])
  show "pairCache (snd (Process_deferred d env c)) k =
              (if observationTime e < now env - 60 * 1000000000 then None else Some e)"
    unfolding pd using flush_after[OF assms(2,3), of d "now env" "now env - 60 * 1000000000"]
    by simp
  show "set (emitted (fst (Process_deferred d env c))) \<subseteq> ran (pairCache c)"
    unfolding pd fst_conv by (rule flush_from_cache[OF assms(2)])
next
  show "count_list (emitted (fst (Close d env c))) e =
              (if observationTime e < now env then 1 else 0)"
    unfolding Close_emitted by (rule flush_once[OF assms])
  show "pairCache (snd (Close d env c)) k =
              (if observationTime e < now env then None else Some e)"
    unfolding Close_pairCache by (rule flush_after[OF assms(2,3)])
  show "set (emitted (fst (Close d env c))) \<subseteq> ran (pairCache c)"
    unfolding Close_emitted by (rule flush_from_cache[OF assms(2)])
qed

lemma sweep_and_Close_emit_once_at_an_instance:
  "cache_ok (snd (Process ex_deps \<lparr>now = 5000000000, visit = [3]\<rparr> (ex_response 3 ''ok'' 4)
       (ex_collector [])))
   \<and> visits [3] (snd (Process ex_deps \<lparr>now = 5000000000, visit = [3]\<rparr> (ex_response 3 ''ok'' 4)
       (ex_collector [])))
   \<and> emitted (fst (Process_deferred ex_deps \<lparr>now = 95000000000, visit = [3]\<rparr>
        (snd (Process ex_deps \<lparr>now = 5000000000, visit = [3]\<rparr> (ex_response 3 ''ok'' 4)
                (ex_collector []))))) =
       [\<lparr>srcIP = ''srv'', srcPort = 80, dstIP = ''cli'', dstPort = 5000,
         observationTime = 4, id_field = 3, witness = ''R:ok''\<rparr>]
   \<and> pairCache (snd (Close ex_deps \<lparr>now = 95000000000, visit = [3]\<rparr>
        (snd (Process ex_deps \<lparr>now = 5000000000, visit = [3]\<rparr> (ex_response 3 ''ok'' 4)
                (ex_collector []))))) 3 = None"
  using sweep_and_Close_emit_once [of
      "snd (Process ex_deps \<lparr>now = 5000000000, visit = [3]\<rparr> (ex_response 3 ''ok'' 4)
             (ex_collector []))"
      "\<lparr>now = 95000000000, visit = [3]\<rparr>" 3
      "\<lparr>srcIP = ''srv'', srcPort = 80, dstIP = ''cli'', dstPort = 5000,
        observationTime = 4, id_field = 3, witness = ''R:ok''\<rparr>" ex_deps]
  by (simp add: ex_run cache_ok_def visits_def dom_def)

text \<open>
  Claim C2. Of the claim, the sweep is as the lemma above says. \<open>Close\<close> is to hand
  over every entry still cached, and it does not: it passes its clock reading as the
  cutoff, and \<open>flushPairCache\<close> skips an entry that was not observed before it. Here a
  response observed at 500 s is cached by a call at 100 s; \<open>Close\<close> at 200 s hands
  nothing to \<open>queueUpload\<close>, and the entry is still in the pair cache of the closed
  collector.
\<close>

theorem Close_misses_later_entry:
  "pairCache (snd (Process ex_deps \<lparr>now = 100000000000, visit = [3]\<rparr>
        (ex_response 3 ''ok'' 500000000000) (ex_collector []))) 3 =
     Some \<lparr>srcIP = ''srv'', srcPort = 80, dstIP = ''cli'', dstPort = 5000,
           observationTime = 500000000000, id_field = 3, witness = ''R:ok''\<rparr>
   \<and> emitted (fst (Close ex_deps \<lparr>now = 200000000000, visit = [3]\<rparr>
        (snd (Process ex_deps \<lparr>now = 100000000000, visit = [3]\<rparr>
           (ex_response 3 ''ok'' 500000000000) (ex_collector []))))) = []
   \<and> pairCache (snd (Close ex_deps \<lparr>now = 200000000000, visit = [3]\<rparr>
        (snd (Process ex_deps \<lparr>now = 100000000000, visit = [3]\<rparr>
           (ex_response 3 ''ok'' 500000000000) (ex_collector []))))) 3 =
     Some \<lparr>srcIP = ''srv'', srcPort = 80, dstIP = ''cli'', dstPort = 5000,
           observationTime = 500000000000, id_field = 3, witness = ''R:ok''\<rparr>"
  by (simp add: ex_run)

lemma flush_empty:
  "pairCache c = Map.empty \<Longrightarrow> flushPairCache d t cf ks c = ([], c)"
  by (induction ks) simp_all

lemma Close_buf: "buf (uploadBatch (snd (Close d env c))) = []"
  by (simp add: Close_def case_prod_beta InMemory_Close_def InMemory_flush_def)

lemma Close_nothing_left:
  "pairCache c = Map.empty \<Longrightarrow> buf (uploadBatch c) = [] \<Longrightarrow> Close d env c = ([], c)"
  by (simp add: Close_def flush_empty InMemory_Close_def InMemory_flush_def)

text \<open>
  When every entry of the pair cache was observed before the instant of the first
  \<open>Close\<close>, that call leaves the pair cache and the batch queue empty, and a second
  \<open>Close\<close>, at any instant, makes no call at all and leaves the collector as it is.
  The batch queue is the batcher modelled from the specification.
\<close>

lemma Close_twice_ships_nothing:
  assumes "visits (visit env) c"
    and "\<forall>k e. pairCache c k = Some e \<longrightarrow> observationTime e < now env"
  shows "pairCache (snd (Close d env c)) = Map.empty
         \<and> buf (uploadBatch (snd (Close d env c))) = []
         \<and> Close d env' (snd (Close d env c)) = ([], snd (Close d env c))"
proof -
  have pc: "pairCache (snd (Close d env c)) = Map.empty"
  proof
    fix k
    show "pairCache (snd (Close d env c)) k = None"
    proof (cases "pairCache c k")
      case None
      then show ?thesis by (simp add: Close_pairCache flush_pairCache)
    next
      case (Some e)
      with assms(2) have "observationTime e < now env" by simp
      with flush_after[OF assms(1) Some, of d "now env" "now env"] show ?thesis
        by (simp add: Close_pairCache)
    qed
  qed
  have bf: "buf (uploadBatch (snd (Close d env c))) = []" by (rule Close_buf)
  have "Close d env' (snd (Close d env c)) = ([], snd (Close d env c))"
    using pc bf by (rule Close_nothing_left)
  with pc bf show ?thesis by simp
qed

lemma Close_twice_ships_nothing_at_an_instance:
  "visits [3] (snd (Process ex_deps \<lparr>now = 5000000000, visit = [3]\<rparr> (ex_response 3 ''ok'' 4)
       (ex_collector [])))
   \<and> shipped (fst (Close ex_deps \<lparr>now = 95000000000, visit = [3]\<rparr>
        (snd (Process ex_deps \<lparr>now = 5000000000, visit = [3]\<rparr> (ex_response 3 ''ok'' 4)
                (ex_collector []))))) =
       [[\<lparr>Direction = Inbound, OriginAddr = ''srv'', OriginPort = 80,
           DestinationAddr = ''cli'', DestinationPort = 5000,
           WitnessProto = ''xxxx'', ClientWitnessTime = 4, Hash = ''xxxx'', ID = 3\<rparr>]]
   \<and> fst (Close ex_deps \<lparr>now = 96000000000, visit = []\<rparr>
        (snd (Close ex_deps \<lparr>now = 95000000000, visit = [3]\<rparr>
          (snd (Process ex_deps \<lparr>now = 5000000000, visit = [3]\<rparr> (ex_response 3 ''ok'' 4)
                (ex_collector [])))))) = []"
  using Close_twice_ships_nothing [of "\<lparr>now = 95000000000, visit = [3]\<rparr>"
      "snd (Process ex_deps \<lparr>now = 5000000000, visit = [3]\<rparr> (ex_response 3 ''ok'' 4)
             (ex_collector []))" ex_deps "\<lparr>now = 96000000000, visit = []\<rparr>"]
  by (simp add: ex_run ex_deps_def visits_def dom_def)

text \<open>
  Claim C9. A second \<open>Close\<close> is to find the pair cache empty and to hand on nothing
  new. It does not when the first \<open>Close\<close> left an entry behind, which it does with an
  entry not observed before its clock reading. Here a response observed at 500 s is
  cached by a call at 100 s; the first \<open>Close\<close>, at 200 s, leaves it in the pair cache;
  the second \<open>Close\<close>, at 600 s, hands it to \<open>queueUpload\<close>.
\<close>

theorem second_Close_finds_entry:
  "pairCache (snd (Close ex_deps \<lparr>now = 200000000000, visit = [3]\<rparr>
        (snd (Process ex_deps \<lparr>now = 100000000000, visit = [3]\<rparr>
           (ex_response 3 ''ok'' 500000000000) (ex_collector []))))) 3 =
     Some \<lparr>srcIP = ''srv'', srcPort = 80, dstIP = ''cli'', dstPort = 5000,
           observationTime = 500000000000, id_field = 3, witness = ''R:ok''\<rparr>
   \<and> emitted (fst (Close ex_deps \<lparr>now = 600000000000, visit = [3]\<rparr>
        (snd (Close ex_deps \<lparr>now = 200000000000, visit = [3]\<rparr>
          (snd (Process ex_deps \<lparr>now = 100000000000, visit = [3]\<rparr>
             (ex_response 3 ''ok'' 500000000000) (ex_collector []))))))) =
       [\<lparr>srcIP = ''srv'', srcPort = 80, dstIP = ''cli'', dstPort = 5000,
         observationTime = 500000000000, id_field = 3, witness = ''R:ok''\<rparr>]"
  by (simp add: ex_run ex_deps_def)

section \<open>Pairing two fragments\<close>

lemma flush_emitted_sub:
  "x \<in> set (emitted (fst (flushPairCache d t cf ks c))) \<Longrightarrow>
   \<exists>k. pairCache c k = Some x \<and> observationTime x < cf"
proof (induction ks arbitrary: c)
  case Nil
  then show ?case by simp
next
  case (Cons a ks)
  show ?case
  proof (cases "pairCache c a")
    case None
    with Cons show ?thesis by simp
  next
    case (Some e)
    show ?thesis
    proof (cases "Before (observationTime e) cf")
      case False
      with Some Cons show ?thesis by simp
    next
      case True
      define c2 where
        "c2 = (snd (queueUpload d t e c))\<lparr>pairCache := (pairCache (snd (queueUpload d t e c)))(a := None)\<rparr>"
      have step: "fst (flushPairCache d t cf (a # ks) c) =
                    fst (queueUpload d t e c) @ fst (flushPairCache d t cf ks c2)"
        using Some True by (simp add: case_prod_beta Let_def c2_def)
      from Cons.prems have "x = e \<or> x \<in> set (emitted (fst (flushPairCache d t cf ks c2)))"
        unfolding step emitted_append queueUpload_emitted by auto
      then show ?thesis
      proof
        assume "x = e"
        with Some True show ?thesis by (auto simp: Before_def)
      next
        assume "x \<in> set (emitted (fst (flushPairCache d t cf ks c2)))"
        from Cons.IH[OF this] obtain k where "pairCache c2 k = Some x" "observationTime x < cf"
          by blast
        then show ?thesis by (auto simp: c2_def split: if_splits)
      qed
    qed
  qed
qed

lemma deferred_other_key:
  assumes ok: "cache_ok c"
    and kept: "IsZero (lastProcessTime c) \<or> now env - lastProcessTime c \<le> 30 * 1000000000
       \<or> \<not> expired (now env - 60 * 1000000000) (pairCache c) K"
  shows "filter (\<lambda>x. id_field x = K) (emitted (fst (Process_deferred d env c))) = []
         \<and> pairCache (snd (Process_deferred d env c)) K = pairCache c K"
proof (cases "IsZero (lastProcessTime c) \<or> now env - lastProcessTime c \<le> 30 * 1000000000")
  case True
  then show ?thesis by (simp add: Process_deferred_idle)
next
  case False
  then have sw: "\<not> IsZero (lastProcessTime c)" "30 * 1000000000 < now env - lastProcessTime c"
    by auto
  note pd = Process_deferred_sweep[OF sw, of d]
  have noK: "id_field x \<noteq> K"
    if "x \<in> set (emitted (fst (flushPairCache d (now env) (now env - 60 * 1000000000) (visit env) c)))"
    for x
  proof
    assume idK: "id_field x = K"
    from flush_emitted_sub[OF that] obtain k where
      k: "pairCache c k = Some x" "observationTime x < now env - 60 * 1000000000"
      by blast
    with ok idK have "k = K" by (auto simp: cache_ok_def)
    with k kept False show False by (auto simp: expired_def Before_def)
  qed
  have "\<not> expired (now env - 60 * 1000000000) (pairCache c) K"
    using kept False by auto
  then have "pairCache (snd (Process_deferred d env c)) K = pairCache c K"
    unfolding pd by (simp add: flush_pairCache)
  moreover have "filter (\<lambda>x. id_field x = K) (emitted (fst (Process_deferred d env c))) = []"
    unfolding pd fst_conv filter_empty_conv using noK by blast
  ultimately show ?thesis by simp
qed

lemma first_call:
  assumes ok: "cache_ok c"
    and fresh: "pairCache c K = None"
    and c1: "Content t1 \<noteq> ContentOther"
    and p1: "ParseHTTP d (Content t1) = Inr p1" and k1: "PairKey p1 = K"
    and kept: "notSwept (ObservationTime t1) (lastProcessTime c) e1"
  shows "filter (\<lambda>x. id_field x = K) (emitted (fst (Process d e1 t1 c))) = []
         \<and> pairCache (snd (Process d e1 t1 c)) K =
             Some \<lparr>srcIP = SrcIP t1, srcPort = word_of_int (SrcPort t1),
                   dstIP = DstIP t1, dstPort = word_of_int (DstPort t1),
                   observationTime = ObservationTime t1, id_field = K, witness = Witness p1\<rparr>
         \<and> cache_ok (snd (Process d e1 t1 c))
         \<and> lastProcessTime (snd (Process d e1 t1 c)) = now e1"
proof -
  define e0 where
    "e0 = \<lparr>srcIP = SrcIP t1, srcPort = word_of_int (SrcPort t1),
           dstIP = DstIP t1, dstPort = word_of_int (DstPort t1),
           observationTime = ObservationTime t1, id_field = K, witness = Witness p1\<rparr>"
  define cA where "cA = snd (Process_body d (now e1) t1 c)"
  have bodyA: "Process_body d (now e1) t1 c = ([], c\<lparr>pairCache := (pairCache c)(K \<mapsto> e0)\<rparr>)"
    using body_insert[OF c1 p1, of c "now e1"] fresh k1 by (simp add: e0_def)
  have cA_K: "pairCache cA K = Some e0" and cA_last: "lastProcessTime cA = lastProcessTime c"
    by (simp_all add: cA_def bodyA)
  have okA: "cache_ok cA" unfolding cA_def using ok by (rule cache_ok_body)
  have keptA: "IsZero (lastProcessTime cA) \<or> now e1 - lastProcessTime cA \<le> 30 * 1000000000
       \<or> \<not> expired (now e1 - 60 * 1000000000) (pairCache cA) K"
    using kept by (auto simp: notSwept_def cA_K cA_last e0_def expired_def Before_def)
  from deferred_other_key[OF okA keptA, of d]
  have dA: "filter (\<lambda>x. id_field x = K) (emitted (fst (Process_deferred d e1 cA))) = []"
    "pairCache (snd (Process_deferred d e1 cA)) K = Some e0"
    by (simp_all add: cA_K)
  have eA: "fst (Process_body d (now e1) t1 c) = []"
    by (simp add: bodyA)
  have "filter (\<lambda>x. id_field x = K) (emitted (fst (Process d e1 t1 c))) = []"
    using dA(1) by (simp add: Process_unfold emitted_append cA_def[symmetric] eA)
  moreover have "pairCache (snd (Process d e1 t1 c)) K = Some e0"
    using dA(2) by (simp add: Process_unfold cA_def[symmetric])
  moreover have "cache_ok (snd (Process d e1 t1 c))" using ok by (rule cache_ok_Process)
  moreover have "lastProcessTime (snd (Process d e1 t1 c)) = now e1"
    by (simp add: Process_unfold deferred_lastProcessTime)
  ultimately show ?thesis by (simp add: e0_def)
qed

lemma body_other_key:
  assumes ok: "cache_ok c" and other: "keyOf d t \<noteq> Some K"
  shows "pairCache (snd (Process_body d tn t c)) K = pairCache c K
         \<and> filter (\<lambda>x. id_field x = K) (emitted (fst (Process_body d tn t c))) = []"
proof (cases "Content t = ContentOther")
  case True
  then show ?thesis by (simp add: body_other)
next
  case False
  show ?thesis
  proof (cases "ParseHTTP d (Content t)")
    case (Inl err)
    with False show ?thesis by (simp add: body_parse_error)
  next
    case (Inr p)
    with False other have pk: "PairKey p \<noteq> K"
      by (cases "Content t") (simp_all add: keyOf_def)
    show ?thesis
    proof (cases "pairCache c (PairKey p)")
      case None
      with False Inr pk show ?thesis by (simp add: body_insert)
    next
      case (Some pair)
      with ok have idp: "id_field pair = PairKey p" by (simp add: cache_ok_def)
      show ?thesis
      proof (cases "Content t")
        case (ContentHTTPRequest q)
        from body_pair_request[OF this Inr Some, of tn] pk idp show ?thesis
          by (simp add: queueUpload_emitted)
      next
        case (ContentHTTPResponse r)
        from body_pair_response[OF this Inr Some, of tn] pk idp show ?thesis
          by (simp add: queueUpload_emitted)
      next
        case ContentOther
        with False show ?thesis by simp
      qed
    qed
  qed
qed

lemma other_call:
  assumes ok: "cache_ok c"
    and cached: "pairCache c K = Some e"
    and other: "keyOf d t \<noteq> Some K"
    and kept: "notSwept (observationTime e) (lastProcessTime c) env"
  shows "filter (\<lambda>x. id_field x = K) (emitted (fst (Process d env t c))) = []
         \<and> pairCache (snd (Process d env t c)) K = Some e
         \<and> cache_ok (snd (Process d env t c))
         \<and> lastProcessTime (snd (Process d env t c)) = now env"
proof -
  define cA where "cA = snd (Process_body d (now env) t c)"
  from body_other_key[OF ok other, of "now env"] cached
  have cA_K: "pairCache cA K = Some e"
    and eA: "filter (\<lambda>x. id_field x = K) (emitted (fst (Process_body d (now env) t c))) = []"
    by (simp_all add: cA_def)
  have cA_last: "lastProcessTime cA = lastProcessTime c" by (simp add: cA_def)
  have okA: "cache_ok cA" unfolding cA_def using ok by (rule cache_ok_body)
  have keptA: "IsZero (lastProcessTime cA) \<or> now env - lastProcessTime cA \<le> 30 * 1000000000
       \<or> \<not> expired (now env - 60 * 1000000000) (pairCache cA) K"
    using kept by (auto simp: notSwept_def cA_K cA_last expired_def Before_def)
  from deferred_other_key[OF okA keptA, of d]
  have dA: "filter (\<lambda>x. id_field x = K) (emitted (fst (Process_deferred d env cA))) = []"
    "pairCache (snd (Process_deferred d env cA)) K = Some e"
    by (simp_all add: cA_K)
  have "filter (\<lambda>x. id_field x = K) (emitted (fst (Process d env t c))) = []"
    using dA(1) eA by (simp add: Process_unfold emitted_append cA_def[symmetric])
  moreover have "pairCache (snd (Process d env t c)) K = Some e"
    using dA(2) by (simp add: Process_unfold cA_def[symmetric])
  moreover have "cache_ok (snd (Process d env t c))" using ok by (rule cache_ok_Process)
  moreover have "lastProcessTime (snd (Process d env t c)) = now env"
    by (simp add: Process_unfold deferred_lastProcessTime)
  ultimately show ?thesis by simp
qed

lemma other_calls:
  assumes "cache_ok c"
    and "pairCache c K = Some e"
    and "\<forall>m \<in> set mids. keyOf d (snd m) \<noteq> Some K"
    and "staysCached (observationTime e) (lastProcessTime c) (map fst mids)"
  shows "filter (\<lambda>x. id_field x = K) (emitted (fst (Process_all d mids c))) = []
         \<and> pairCache (snd (Process_all d mids c)) K = Some e
         \<and> cache_ok (snd (Process_all d mids c))"
  using assms
proof (induction mids arbitrary: c)
  case Nil
  then show ?case by simp
next
  case (Cons m mids)
  obtain env t where m: "m = (env, t)" by (cases m)
  from Cons.prems m have o: "keyOf d t \<noteq> Some K"
    and k: "notSwept (observationTime e) (lastProcessTime c) env"
    and rest: "\<forall>m \<in> set mids. keyOf d (snd m) \<noteq> Some K"
    and st: "staysCached (observationTime e) (now env) (map fst mids)"
    by simp_all
  note oc = other_call[OF Cons.prems(1,2) o k]
  from oc st have st': "staysCached (observationTime e)
      (lastProcessTime (snd (Process d env t c))) (map fst mids)"
    by simp
  from Cons.IH[of "snd (Process d env t c)"] oc rest st'
  have ih: "filter (\<lambda>x. id_field x = K)
              (emitted (fst (Process_all d mids (snd (Process d env t c))))) = []
         \<and> pairCache (snd (Process_all d mids (snd (Process d env t c)))) K = Some e
         \<and> cache_ok (snd (Process_all d mids (snd (Process d env t c))))"
    by blast
  with oc show ?case
    by (simp add: m case_prod_beta emitted_append)
qed

lemma completing_call:
  assumes ok: "cache_ok c"
    and cached: "pairCache c K = Some e"
    and c2: "Content t2 \<noteq> ContentOther"
    and p2: "ParseHTTP d (Content t2) = Inr p2" and k2: "PairKey p2 = K"
  shows "filter (\<lambda>x. id_field x = K) (emitted (fst (Process d e2 t2 c))) =
           [\<lparr>srcIP = (if isHTTPRequest (Content t2) then dstIP e else srcIP e),
             srcPort = (if isHTTPRequest (Content t2) then dstPort e else srcPort e),
             dstIP = (if isHTTPRequest (Content t2) then srcIP e else dstIP e),
             dstPort = (if isHTTPRequest (Content t2) then srcPort e else dstPort e),
             observationTime = observationTime e,
             id_field = K,
             witness = MergeWitness d (witness e) (Witness p2)\<rparr>]
         \<and> pairCache (snd (Process d e2 t2 c)) K = None"
proof -
  from ok cached have idK: "id_field e = K" by (simp add: cache_ok_def)
  define pair2 where
    "pair2 = \<lparr>srcIP = (if isHTTPRequest (Content t2) then dstIP e else srcIP e),
             srcPort = (if isHTTPRequest (Content t2) then dstPort e else srcPort e),
             dstIP = (if isHTTPRequest (Content t2) then srcIP e else dstIP e),
             dstPort = (if isHTTPRequest (Content t2) then srcPort e else dstPort e),
             observationTime = observationTime e,
             id_field = K,
             witness = MergeWitness d (witness e) (Witness p2)\<rparr>"
  define cC where "cC = snd (Process_body d (now e2) t2 c)"
  have bodyB: "Process_body d (now e2) t2 c =
                 queueUpload d (now e2) pair2 (c\<lparr>pairCache := (pairCache c)(K := None)\<rparr>)"
  proof (cases "Content t2")
    case (ContentHTTPRequest q)
    have "e\<lparr>witness := MergeWitness d (witness e) (Witness p2),
             srcIP := dstIP e, dstIP := srcIP e,
             srcPort := dstPort e, dstPort := srcPort e\<rparr> = pair2"
      using idK ContentHTTPRequest by (cases e) (simp add: pair2_def isHTTPRequest_def)
    with body_pair_request[OF ContentHTTPRequest p2, of c e "now e2"] cached k2
    show ?thesis by simp
  next
    case (ContentHTTPResponse r)
    have "e\<lparr>witness := MergeWitness d (witness e) (Witness p2)\<rparr> = pair2"
      using idK ContentHTTPResponse by (cases e) (simp add: pair2_def isHTTPRequest_def)
    with body_pair_response[OF ContentHTTPResponse p2, of c e "now e2"] cached k2
    show ?thesis by simp
  next
    case ContentOther
    with c2 show ?thesis by simp
  qed
  have emB: "emitted (fst (Process_body d (now e2) t2 c)) = [pair2]"
    unfolding bodyB by (rule queueUpload_emitted)
  have cC_K: "pairCache cC K = None"
    by (simp add: cC_def bodyB)
  have okC: "cache_ok cC" unfolding cC_def using ok by (rule cache_ok_body)
  have keptC: "IsZero (lastProcessTime cC) \<or> now e2 - lastProcessTime cC \<le> 30 * 1000000000
       \<or> \<not> expired (now e2 - 60 * 1000000000) (pairCache cC) K"
    using cC_K by (simp add: expired_def)
  from deferred_other_key[OF okC keptC, of d] cC_K
  have dC: "filter (\<lambda>x. id_field x = K) (emitted (fst (Process_deferred d e2 cC))) = []"
    "pairCache (snd (Process_deferred d e2 cC)) K = None"
    by simp_all
  have "filter (\<lambda>x. id_field x = K) (emitted (fst (Process d e2 t2 c))) = [pair2]"
    using dC(1) emB by (simp add: Process_unfold emitted_append cC_def[symmetric] pair2_def)
  moreover have "pairCache (snd (Process d e2 t2 c)) K = None"
    using dC(2) by (simp add: Process_unfold cC_def[symmetric])
  ultimately show ?thesis by (simp add: pair2_def)
qed

lemma Process_all_append:
  "Process_all d (xs @ ys) c =
     (fst (Process_all d xs c) @ fst (Process_all d ys (snd (Process_all d xs c))),
      snd (Process_all d ys (snd (Process_all d xs c))))"
proof (induction xs arbitrary: c)
  case Nil
  show ?case by simp
next
  case (Cons a xs)
  obtain env t where a: "a = (env, t)" by (cases a)
  show ?case
    unfolding a using Cons.IH[of "snd (Process d env t c)"]
    by (simp add: case_prod_beta)
qed

text \<open>
  Claim C1, as amended. A fragment with the pairing key \<open>K\<close>, not yet in the cache, is
  given to \<open>Process\<close>; any number of calls with frames of other keys (or none) follow;
  then comes a second fragment with the key \<open>K\<close>. No sweep expires the first fragment
  before the second arrives: at its own call and at each call in between, no sweep is
  due or the fragment was observed within the last minute. Then, over all these calls,
  exactly one exchange with the identifier \<open>K\<close> is handed to \<open>queueUpload\<close>: the cached
  record with the witness of the second fragment merged into that of the first, the
  observation time of the first, and the addressing of the first fragment, swapped
  exactly when the second fragment is the request; the key is no longer cached
  afterwards. The origin is the source of the request: as recorded when the request
  came first, and through the swap when the response came first, the two frames
  carrying mirrored addressing.
\<close>

theorem paired_fragments_emit_one_exchange:
  assumes ok: "cache_ok c"
    and fresh: "pairCache c K = None"
    and c1: "Content t1 \<noteq> ContentOther"
    and p1: "ParseHTTP d (Content t1) = Inr p1" and k1: "PairKey p1 = K"
    and c2: "Content t2 \<noteq> ContentOther"
    and p2: "ParseHTTP d (Content t2) = Inr p2" and k2: "PairKey p2 = K"
    and others: "\<forall>m \<in> set mids. keyOf d (snd m) \<noteq> Some K"
    and stays: "staysCached (ObservationTime t1) (lastProcessTime c) (e1 # map fst mids)"
  shows "filter (\<lambda>x. id_field x = K)
           (emitted (fst (Process_all d ((e1, t1) # mids @ [(e2, t2)]) c))) =
           [\<lparr>srcIP = (if isHTTPRequest (Content t2) then DstIP t1 else SrcIP t1),
             srcPort = word_of_int (if isHTTPRequest (Content t2) then DstPort t1 else SrcPort t1),
             dstIP = (if isHTTPRequest (Content t2) then SrcIP t1 else DstIP t1),
             dstPort = word_of_int (if isHTTPRequest (Content t2) then SrcPort t1 else DstPort t1),
             observationTime = ObservationTime t1,
             id_field = K,
             witness = MergeWitness d (Witness p1) (Witness p2)\<rparr>]
         \<and> pairCache (snd (Process_all d ((e1, t1) # mids @ [(e2, t2)]) c)) K = None
         \<and> (isHTTPRequest (Content t1) \<and> \<not> isHTTPRequest (Content t2) \<longrightarrow>
              map (\<lambda>x. (srcIP x, srcPort x))
                (filter (\<lambda>x. id_field x = K)
                   (emitted (fst (Process_all d ((e1, t1) # mids @ [(e2, t2)]) c)))) =
              [(SrcIP t1, word_of_int (SrcPort t1))])
         \<and> (\<not> isHTTPRequest (Content t1) \<and> isHTTPRequest (Content t2) \<and> mirrored t1 t2 \<longrightarrow>
              map (\<lambda>x. (srcIP x, srcPort x))
                (filter (\<lambda>x. id_field x = K)
                   (emitted (fst (Process_all d ((e1, t1) # mids @ [(e2, t2)]) c)))) =
              [(SrcIP t2, word_of_int (SrcPort t2))])"
proof -
  define e0 where
    "e0 = \<lparr>srcIP = SrcIP t1, srcPort = word_of_int (SrcPort t1),
           dstIP = DstIP t1, dstPort = word_of_int (DstPort t1),
           observationTime = ObservationTime t1, id_field = K, witness = Witness p1\<rparr>"
  define cB where "cB = snd (Process d e1 t1 c)"
  define cM where "cM = snd (Process_all d mids cB)"
  from stays have k1': "notSwept (ObservationTime t1) (lastProcessTime c) e1"
    and st: "staysCached (ObservationTime t1) (now e1) (map fst mids)"
    by simp_all
  from first_call[OF ok fresh c1 p1 k1 k1']
  have f: "filter (\<lambda>x. id_field x = K) (emitted (fst (Process d e1 t1 c))) = []"
    and cB_K: "pairCache cB K = Some e0" and okB: "cache_ok cB"
    and lastB: "lastProcessTime cB = now e1"
    by (simp_all add: cB_def e0_def)
  have stB: "staysCached (observationTime e0) (lastProcessTime cB) (map fst mids)"
    using st lastB by (simp add: e0_def)
  from other_calls[OF okB cB_K others stB]
  have m: "filter (\<lambda>x. id_field x = K) (emitted (fst (Process_all d mids cB))) = []"
    and cM_K: "pairCache cM K = Some e0" and okM: "cache_ok cM"
    by (simp_all add: cM_def)
  from completing_call[OF okM cM_K c2 p2 k2, of e2]
  have s: "filter (\<lambda>x. id_field x = K) (emitted (fst (Process d e2 t2 cM))) =
           [\<lparr>srcIP = (if isHTTPRequest (Content t2) then DstIP t1 else SrcIP t1),
             srcPort = word_of_int (if isHTTPRequest (Content t2) then DstPort t1 else SrcPort t1),
             dstIP = (if isHTTPRequest (Content t2) then SrcIP t1 else DstIP t1),
             dstPort = word_of_int (if isHTTPRequest (Content t2) then SrcPort t1 else DstPort t1),
             observationTime = ObservationTime t1,
             id_field = K,
             witness = MergeWitness d (Witness p1) (Witness p2)\<rparr>]"
    and l: "pairCache (snd (Process d e2 t2 cM)) K = None"
    by (simp_all add: e0_def)
  have run: "Process_all d ((e1, t1) # mids @ [(e2, t2)]) c =
               (fst (Process d e1 t1 c) @ fst (Process_all d mids cB) @ fst (Process d e2 t2 cM),
                snd (Process d e2 t2 cM))"
    by (simp add: case_prod_beta Process_all_append cB_def cM_def)
  have em: "filter (\<lambda>x. id_field x = K)
           (emitted (fst (Process_all d ((e1, t1) # mids @ [(e2, t2)]) c))) =
           [\<lparr>srcIP = (if isHTTPRequest (Content t2) then DstIP t1 else SrcIP t1),
             srcPort = word_of_int (if isHTTPRequest (Content t2) then DstPort t1 else SrcPort t1),
             dstIP = (if isHTTPRequest (Content t2) then SrcIP t1 else DstIP t1),
             dstPort = word_of_int (if isHTTPRequest (Content t2) then SrcPort t1 else DstPort t1),
             observationTime = ObservationTime t1,
             id_field = K,
             witness = MergeWitness d (Witness p1) (Witness p2)\<rparr>]"
    unfolding run fst_conv emitted_append filter_append f m s by simp
  have lc: "pairCache (snd (Process_all d ((e1, t1) # mids @ [(e2, t2)]) c)) K = None"
    unfolding run using l by simp
  show ?thesis
    unfolding em using lc by (simp add: mirrored_def)
qed

theorem paired_fragments_emit_one_exchange_witness:
  "cache_ok (ex_collector []) \<and> pairCache (ex_collector []) 3 = None
   \<and> keyOf ex_deps (ex_request 9 ''put'' 4500000000) = Some 9
   \<and> staysCached (ObservationTime (ex_response 3 ''ok'' 4000000000))
        (lastProcessTime (ex_collector []))
        [\<lparr>now = 5000000000, visit = [3]\<rparr>, \<lparr>now = 45000000000, visit = [3, 9]\<rparr>]
   \<and> mirrored (ex_response 3 ''ok'' 4000000000) (ex_request 3 ''get'' 3000000000)
   \<and> filter (\<lambda>x. id_field x = 3)
        (emitted (fst (Process_all ex_deps
           [(\<lparr>now = 5000000000, visit = [3]\<rparr>, ex_response 3 ''ok'' 4000000000),
            (\<lparr>now = 45000000000, visit = [3, 9]\<rparr>, ex_request 9 ''put'' 4500000000),
            (\<lparr>now = 46000000000, visit = [9]\<rparr>, ex_request 3 ''get'' 3000000000)]
           (ex_collector [])))) =
       [\<lparr>srcIP = ''cli'', srcPort = 5000, dstIP = ''srv'', dstPort = 80,
         observationTime = 4000000000, id_field = 3, witness = ''R:ok+Q:get''\<rparr>]
   \<and> SrcIP (ex_request 3 ''get'' 3000000000) = ''cli''
   \<and> SrcPort (ex_request 3 ''get'' 3000000000) = 5000"
proof -
  have h1: "cache_ok (ex_collector [])"
    by (simp add: ex_defs cache_ok_def)
  have h2: "pairCache (ex_collector []) 3 = None"
    by (simp add: ex_defs)
  have h3: "Content (ex_response 3 ''ok'' 4000000000) \<noteq> ContentOther"
    by (simp add: ex_response_def)
  have h4: "ParseHTTP ex_deps (Content (ex_response 3 ''ok'' 4000000000)) =
              Inr \<lparr>PairKey = 3, Witness = ''R:ok''\<rparr>"
    by (simp add: ex_response_def ex_parse)
  have h5: "PairKey \<lparr>PairKey = 3, Witness = ''R:ok''\<rparr> = 3"
    by simp
  have h6: "Content (ex_request 3 ''get'' 3000000000) \<noteq> ContentOther"
    by (simp add: ex_request_def)
  have h7: "ParseHTTP ex_deps (Content (ex_request 3 ''get'' 3000000000)) =
              Inr \<lparr>PairKey = 3, Witness = ''Q:get''\<rparr>"
    by (simp add: ex_request_def ex_parse)
  have h8: "PairKey \<lparr>PairKey = 3, Witness = ''Q:get''\<rparr> = 3"
    by simp
  have k9: "keyOf ex_deps (ex_request 9 ''put'' 4500000000) = Some 9"
    by (simp add: keyOf_def ex_request_def ex_parse)
  have h9: "\<forall>m \<in> set [(\<lparr>now = 45000000000, visit = [3, 9]\<rparr>, ex_request 9 ''put'' 4500000000)].
              keyOf ex_deps (snd m) \<noteq> Some 3"
    by (simp add: k9)
  have st: "staysCached (ObservationTime (ex_response 3 ''ok'' 4000000000))
        (lastProcessTime (ex_collector []))
        [\<lparr>now = 5000000000, visit = [3]\<rparr>, \<lparr>now = 45000000000, visit = [3, 9]\<rparr>]"
    by (simp add: notSwept_def ex_response_def ex_defs IsZero_def)
  have h10: "staysCached (ObservationTime (ex_response 3 ''ok'' 4000000000))
        (lastProcessTime (ex_collector []))
        (\<lparr>now = 5000000000, visit = [3]\<rparr> #
         map fst [(\<lparr>now = 45000000000, visit = [3, 9]\<rparr>, ex_request 9 ''put'' 4500000000)])"
    using st by simp
  have mi: "mirrored (ex_response 3 ''ok'' 4000000000) (ex_request 3 ''get'' 3000000000)"
    by (simp add: mirrored_def ex_response_def ex_request_def)
  from paired_fragments_emit_one_exchange [OF h1 h2 h3 h4 h5 h6 h7 h8 h9 h10,
      of "\<lparr>now = 46000000000, visit = [9]\<rparr>"]
  have "filter (\<lambda>x. id_field x = 3)
        (emitted (fst (Process_all ex_deps
           [(\<lparr>now = 5000000000, visit = [3]\<rparr>, ex_response 3 ''ok'' 4000000000),
            (\<lparr>now = 45000000000, visit = [3, 9]\<rparr>, ex_request 9 ''put'' 4500000000),
            (\<lparr>now = 46000000000, visit = [9]\<rparr>, ex_request 3 ''get'' 3000000000)]
           (ex_collector [])))) =
       [\<lparr>srcIP = ''cli'', srcPort = 5000, dstIP = ''srv'', dstPort = 80,
         observationTime = 4000000000, id_field = 3, witness = ''R:ok+Q:get''\<rparr>]"
    by (simp add: ex_request_def ex_response_def isHTTPRequest_def ex_deps_def)
  with h1 h2 k9 st mi show ?thesis
    by (simp add: ex_request_def)
qed

theorem paired_fragments_counterexample:
  "emitted (fst (Process ex_deps \<lparr>now = 95000000000, visit = [3]\<rparr>
       (ex_request 3 ''get'' 4000000000)
       (snd (Process ex_deps \<lparr>now = 5000000000, visit = []\<rparr>
               (ex_request 7 '''' 4000000000) (ex_collector []))))) =
     [\<lparr>srcIP = ''cli'', srcPort = 5000, dstIP = ''srv'', dstPort = 80,
       observationTime = 4000000000, id_field = 3, witness = ''Q:get''\<rparr>]
   \<and> emitted (fst (Process ex_deps \<lparr>now = 96000000000, visit = [3]\<rparr>
       (ex_response 3 ''ok'' 5000000000)
       (snd (Process ex_deps \<lparr>now = 95000000000, visit = [3]\<rparr>
          (ex_request 3 ''get'' 4000000000)
          (snd (Process ex_deps \<lparr>now = 5000000000, visit = []\<rparr>
                  (ex_request 7 '''' 4000000000) (ex_collector []))))))) = []
   \<and> pairCache (snd (Process ex_deps \<lparr>now = 96000000000, visit = [3]\<rparr>
       (ex_response 3 ''ok'' 5000000000)
       (snd (Process ex_deps \<lparr>now = 95000000000, visit = [3]\<rparr>
          (ex_request 3 ''get'' 4000000000)
          (snd (Process ex_deps \<lparr>now = 5000000000, visit = []\<rparr>
                  (ex_request 7 '''' 4000000000) (ex_collector []))))))) 3 =
     Some \<lparr>srcIP = ''srv'', srcPort = 80, dstIP = ''cli'', dstPort = 5000,
           observationTime = 5000000000, id_field = 3, witness = ''R:ok''\<rparr>"
  by (simp add: ex_run ex_deps_def)

section \<open>Uploading a batch\<close>

lemma uploadWitnesses_loop_eq:
  "uploadWitnesses_loop d direction ws =
     (map (\<lambda>err. Warningf ''Failed to convert witness to report: %v\<newline>'' [err])
        (conversionErrors d direction ws),
      converted d direction ws)"
  by (induction ws) (simp_all add: converted_def conversionErrors_def split: sum.splits)

lemma uploadWitnesses_eq:
  "uploadWitnesses d c inp =
     map (\<lambda>err. Warningf ''Failed to convert witness to report: %v\<newline>'' [err])
       (conversionErrors d (dir c) inp) @
     [ReportWitnessesCall (30 * 1000000000) (learnSessionID c) (converted d (dir c) inp)] @
     (case learnClient c (30 * 1000000000) (learnSessionID c) (converted d (dir c) inp) of
        None \<Rightarrow> []
      | Some err \<Rightarrow> [Warningf ''Failed to upload witnesses: %v\<newline>'' [err]])"
  by (simp add: uploadWitnesses_def uploadWitnesses_loop_eq Second_def)

lemma shipped_warnings:
  "shipped (map (\<lambda>err. Warningf f [err]) msgs) = []"
  by (induction msgs) simp_all

lemma uploadWitnesses_shipped:
  "shipped (uploadWitnesses d c inp) = [converted d (dir c) inp]"
  by (simp add: uploadWitnesses_eq shipped_append shipped_warnings split: option.splits)

lemma toReport_fails_iff:
  "(\<exists>err. toReport d w direction = Inl err) \<longleftrightarrow>
   (\<exists>err. HashProto d (witness w) = Inl err) \<or> (\<exists>err. Marshal d (witness w) = Inl err)"
  by (auto simp: toReport_def split: sum.splits)

text \<open>
  The hash and the encoded proto of a report are those of the witness alone: two
  records with the same witness get the same hash, whatever their addressing, time
  and identifier.
\<close>

lemma toReport_hash_of_witness:
  "toReport d r1 dir1 = Inr p1 \<Longrightarrow> toReport d r2 dir2 = Inr p2 \<Longrightarrow> witness r1 = witness r2 \<Longrightarrow>
   Hash p1 = Hash p2 \<and> WitnessProto p1 = WitnessProto p2"
  by (auto simp: toReport_def split: sum.splits)

text \<open>
  Claim C4. A flush hands the batch to \<open>uploadWitnesses\<close>. What it does is, in order:
  one warning for each item that \<open>toReport\<close> fails on (which is when hashing or
  marshalling the witness fails), one call of \<open>ReportWitnesses\<close> with a timeout of 30
  seconds, carrying the reports of all other items in the order of the batch, and, if
  that call returns an error, one more warning. There is one submission and no second
  one, whatever the first returns, and the batch is not kept. An item that fails is
  alone in being dropped: the reports of the items before and after it are the same as
  if it had not been in the batch.
\<close>

theorem uploadWitnesses_drops_and_ships:
  "uploadWitnesses d c inp =
     map (\<lambda>err. Warningf ''Failed to convert witness to report: %v\<newline>'' [err])
       (conversionErrors d (dir c) inp) @
     [ReportWitnessesCall (30 * 1000000000) (learnSessionID c) (converted d (dir c) inp)] @
     (case learnClient c (30 * 1000000000) (learnSessionID c) (converted d (dir c) inp) of
        None \<Rightarrow> []
      | Some err \<Rightarrow> [Warningf ''Failed to upload witnesses: %v\<newline>'' [err]])
   \<and> shipped (uploadWitnesses d c inp) = [converted d (dir c) inp]
   \<and> (toReport d w (dir c) = Inl err \<longrightarrow>
        converted d (dir c) (xs @ w # ys) = converted d (dir c) xs @ converted d (dir c) ys
        \<and> conversionErrors d (dir c) (xs @ w # ys) =
            conversionErrors d (dir c) xs @ err # conversionErrors d (dir c) ys)
   \<and> (toReport d w (dir c) = Inr r \<longrightarrow>
        converted d (dir c) (xs @ w # ys) = converted d (dir c) xs @ r # converted d (dir c) ys
        \<and> conversionErrors d (dir c) (xs @ w # ys) =
            conversionErrors d (dir c) xs @ conversionErrors d (dir c) ys)
   \<and> ((\<exists>e. toReport d w (dir c) = Inl e) \<longleftrightarrow>
        (\<exists>e. HashProto d (witness w) = Inl e) \<or> (\<exists>e. Marshal d (witness w) = Inl e))"
proof (intro conjI impI)
  show "uploadWitnesses d c inp =
     map (\<lambda>err. Warningf ''Failed to convert witness to report: %v\<newline>'' [err])
       (conversionErrors d (dir c) inp) @
     [ReportWitnessesCall (30 * 1000000000) (learnSessionID c) (converted d (dir c) inp)] @
     (case learnClient c (30 * 1000000000) (learnSessionID c) (converted d (dir c) inp) of
        None \<Rightarrow> []
      | Some err \<Rightarrow> [Warningf ''Failed to upload witnesses: %v\<newline>'' [err]])"
    by (rule uploadWitnesses_eq)
  show "shipped (uploadWitnesses d c inp) = [converted d (dir c) inp]"
    by (rule uploadWitnesses_shipped)
  show "(\<exists>e. toReport d w (dir c) = Inl e) \<longleftrightarrow>
        (\<exists>e. HashProto d (witness w) = Inl e) \<or> (\<exists>e. Marshal d (witness w) = Inl e)"
    by (rule toReport_fails_iff)
next
  assume "toReport d w (dir c) = Inl err"
  then show "converted d (dir c) (xs @ w # ys) = converted d (dir c) xs @ converted d (dir c) ys"
    and "conversionErrors d (dir c) (xs @ w # ys) =
            conversionErrors d (dir c) xs @ err # conversionErrors d (dir c) ys"
    by (simp_all add: converted_def conversionErrors_def)
next
  assume "toReport d w (dir c) = Inr r"
  then show "converted d (dir c) (xs @ w # ys) = converted d (dir c) xs @ r # converted d (dir c) ys"
    and "conversionErrors d (dir c) (xs @ w # ys) =
            conversionErrors d (dir c) xs @ conversionErrors d (dir c) ys"
    by (simp_all add: converted_def conversionErrors_def)
qed

theorem uploadWitnesses_drops_and_ships_witness:
  "toReport ex_deps (ex_w 2 []) Inbound = Inl ''failed to hash witness proto: nil message''
   \<and> toReport ex_deps (ex_w 3 ''c'') Inbound =
        Inr \<lparr>Direction = Inbound, OriginAddr = ''abcd'', OriginPort = 5000,
             DestinationAddr = ''efgh'', DestinationPort = 80,
             WitnessProto = ''c'', ClientWitnessTime = 7, Hash = ''c'', ID = 3\<rparr>
   \<and> uploadWitnesses ex_deps ((ex_collector [])\<lparr>learnSessionID := 0\<rparr>)
        [ex_w 1 ''a'', ex_w 2 [], ex_w 3 ''c''] =
       [Warningf ''Failed to convert witness to report: %v\<newline>''
          [''failed to hash witness proto: nil message''],
        ReportWitnessesCall 30000000000 0
          [\<lparr>Direction = Inbound, OriginAddr = ''abcd'', OriginPort = 5000,
            DestinationAddr = ''efgh'', DestinationPort = 80,
            WitnessProto = ''a'', ClientWitnessTime = 7, Hash = ''a'', ID = 1\<rparr>,
           \<lparr>Direction = Inbound, OriginAddr = ''abcd'', OriginPort = 5000,
            DestinationAddr = ''efgh'', DestinationPort = 80,
            WitnessProto = ''c'', ClientWitnessTime = 7, Hash = ''c'', ID = 3\<rparr>],
        Warningf ''Failed to upload witnesses: %v\<newline>'' [''no such session'']]"
  using uploadWitnesses_drops_and_ships [of ex_deps "(ex_collector [])\<lparr>learnSessionID := 0\<rparr>"
      "[ex_w 1 ''a'', ex_w 2 [], ex_w 3 ''c'']" "ex_w 2 []"
      "''failed to hash witness proto: nil message''" "[ex_w 1 ''a'']" "[ex_w 3 ''c'']"
      "\<lparr>Direction = Inbound, OriginAddr = ''abcd'', OriginPort = 5000,
        DestinationAddr = ''efgh'', DestinationPort = 80,
        WitnessProto = ''c'', ClientWitnessTime = 7, Hash = ''c'', ID = 3\<rparr>"]
    uploadWitnesses_drops_and_ships [of ex_deps "(ex_collector [])\<lparr>learnSessionID := 0\<rparr>"
      "[ex_w 1 ''a'', ex_w 2 [], ex_w 3 ''c'']" "ex_w 3 ''c''"
      "''failed to hash witness proto: nil message''" "[ex_w 1 ''a'', ex_w 2 []]" "[]"
      "\<lparr>Direction = Inbound, OriginAddr = ''abcd'', OriginPort = 5000,
        DestinationAddr = ''efgh'', DestinationPort = 80,
        WitnessProto = ''c'', ClientWitnessTime = 7, Hash = ''c'', ID = 3\<rparr>"]
  by (simp add: ex_run ex_w_def ex_deps_def)

lemma time_Sub_interval:
  "(uploadBatchFlushDuration < time_Sub a b) = (30 * 1000000000 < a - b)"
  using time_Sub_gt[of uploadBatchFlushDuration a b]
  by (simp add: uploadBatchFlushDuration_def Second_def minDuration_def maxDuration_def)

lemma queueUpload_ok:
  assumes "chain (plugins c) (witness w) = Some m"
  shows "shipped (fst (queueUpload d t w c)) =
           shipped (fst (InMemory_Add (uploadWitnesses d c) t (w\<lparr>witness := obfuscate d m\<rparr>)
                           (uploadBatch c)))
         \<and> uploadBatch (snd (queueUpload d t w c)) =
           snd (InMemory_Add (uploadWitnesses d c) t (w\<lparr>witness := obfuscate d m\<rparr>)
                  (uploadBatch c))"
proof -
  obtain es r where l: "queueUpload_loop (plugins c) (witness w) = (es, r)"
    by (cases "queueUpload_loop (plugins c) (witness w)")
  with assms loop_chain[of "plugins c" "witness w"]
  have l': "queueUpload_loop (plugins c) (witness w) = (es, Some m)" by simp
  from loop_success_calls[OF l'] have "shipped es = []" by simp
  then show ?thesis
    using l' by (simp add: queueUpload_def case_prod_beta Let_def shipped_append)
qed

text \<open>The batch keeps its two bounds through every operation of the collector.\<close>

lemma flush_bounds:
  "bufSize (snd (InMemory_flush pb b)) = bufSize b"
  "flushDuration (snd (InMemory_flush pb b)) = flushDuration b"
  by (simp_all add: InMemory_flush_def)

lemma Add_bounds:
  "bufSize (snd (InMemory_Add pb t i b)) = bufSize b"
  "flushDuration (snd (InMemory_Add pb t i b)) = flushDuration b"
  by (simp_all add: InMemory_Add_def Let_def flush_bounds)

lemma configured_new: "batch_configured (NewBackendCollector svc lrn lc direction ps)"
  by (simp add: batch_configured_def NewBackendCollector_def NewInMemory_def)

lemma configured_queueUpload:
  "batch_configured c \<Longrightarrow> batch_configured (snd (queueUpload d t w c))"
  by (auto simp: batch_configured_def queueUpload_def Let_def case_prod_beta Add_bounds
      split: prod.splits option.splits)

lemma configured_flushPairCache:
  "batch_configured c \<Longrightarrow> batch_configured (snd (flushPairCache d t cf ks c))"
proof (induction ks arbitrary: c)
  case Nil
  then show ?case by simp
next
  case (Cons a ks)
  show ?case
  proof (cases "pairCache c a")
    case None
    with Cons show ?thesis by simp
  next
    case (Some e)
    show ?thesis
    proof (cases "Before (observationTime e) cf")
      case False
      with Some Cons show ?thesis by simp
    next
      case True
      have "batch_configured
              ((snd (queueUpload d t e c))\<lparr>pairCache := (pairCache (snd (queueUpload d t e c)))(a := None)\<rparr>)"
        using configured_queueUpload[OF Cons.prems, of d t e]
        by (simp add: batch_configured_def)
      from Cons.IH[OF this] Some True show ?thesis
        by (simp add: case_prod_beta Let_def)
    qed
  qed
qed

lemma configured_body:
  assumes c: "batch_configured c"
  shows "batch_configured (snd (Process_body d tn t c))"
proof (cases "Content t = ContentOther")
  case True
  with c show ?thesis by (simp add: body_other)
next
  case False
  show ?thesis
  proof (cases "ParseHTTP d (Content t)")
    case (Inl err)
    with False c show ?thesis by (simp add: body_parse_error)
  next
    case (Inr p)
    show ?thesis
    proof (cases "pairCache c (PairKey p)")
      case None
      with False Inr c show ?thesis by (simp add: body_insert batch_configured_def)
    next
      case (Some pair)
      from c have "batch_configured (c\<lparr>pairCache := (pairCache c)(PairKey p := None)\<rparr>)"
        by (simp add: batch_configured_def)
      then have "\<And>w. batch_configured (snd (queueUpload d tn w
                     (c\<lparr>pairCache := (pairCache c)(PairKey p := None)\<rparr>)))"
        by (rule configured_queueUpload)
      with False Inr Some show ?thesis
        by (cases "Content t") (simp_all add: body_pair_request body_pair_response)
    qed
  qed
qed

lemma configured_Process:
  assumes c: "batch_configured c"
  shows "batch_configured (snd (Process d env t c))"
proof -
  have b: "batch_configured (snd (Process_body d (now env) t c))"
    using c by (rule configured_body)
  have "batch_configured (snd (Process_deferred d env (snd (Process_body d (now env) t c))))"
    using configured_flushPairCache[OF b, of d "now env"
        "time_Add (now env) (- pairCacheExpiration)" "visit env"] b
    by (simp add: Process_deferred_def case_prod_beta batch_configured_def)
  then show ?thesis by (simp add: Process_unfold)
qed

section \<open>The triggers of the upload batch\<close>

lemma flush_shipped:
  "buf b \<noteq> [] \<Longrightarrow>
   shipped (fst (InMemory_flush (uploadWitnesses d c) b)) = [converted d (dir c) (map snd (buf b))]"
  by (simp add: InMemory_flush_def uploadWitnesses_shipped)

text \<open>
  Claim C3. \<open>NewBackendCollector\<close> builds the upload batch with the maximum size 10 and
  the flush duration of 30 seconds, and it keeps them. With these bounds, and the
  batcher as the specification describes it: an exchange that clears the plugins is
  appended to the queue; while the queue stays shorter than 10 nothing is submitted;
  when the append makes it 10 long the whole queue is submitted at once, in order, and
  the queue is empty afterwards. At the time trigger, a non-empty queue whose oldest
  item was added more than 30 seconds before is submitted whole and emptied, whatever
  its length; otherwise the trigger does nothing.
\<close>

theorem uploadBatch_size_and_time_triggers:
  "batch_configured (NewBackendCollector svc lrn lc direction ps)
   \<and> uploadBatch (NewBackendCollector svc lrn lc direction ps) =
       \<lparr>bufSize = 10, flushDuration = 30 * 1000000000, buf = []\<rparr>
   \<and> (batch_configured c \<and> chain (plugins c) (witness w) = Some m
        \<and> length (buf (uploadBatch c)) + 1 < 10 \<longrightarrow>
        shipped (fst (queueUpload d t w c)) = []
        \<and> buf (uploadBatch (snd (queueUpload d t w c))) =
            buf (uploadBatch c) @ [(t, w\<lparr>witness := obfuscate d m\<rparr>)])
   \<and> (batch_configured c \<and> chain (plugins c) (witness w) = Some m
        \<and> length (buf (uploadBatch c)) + 1 = 10 \<longrightarrow>
        shipped (fst (queueUpload d t w c)) =
            [converted d (dir c) (map snd (buf (uploadBatch c)) @ [w\<lparr>witness := obfuscate d m\<rparr>])]
        \<and> buf (uploadBatch (snd (queueUpload d t w c))) = [])
   \<and> (batch_configured c \<and> buf (uploadBatch c) = (t0, x) # rest
        \<and> 30 * 1000000000 < t - t0 \<longrightarrow>
        shipped (fst (Tick d t c)) = [converted d (dir c) (x # map snd rest)]
        \<and> buf (uploadBatch (snd (Tick d t c))) = [])
   \<and> (batch_configured c \<and> buf (uploadBatch c) = (t0, x) # rest
        \<and> t - t0 \<le> 30 * 1000000000 \<longrightarrow>
        Tick d t c = ([], c))"
proof (intro conjI impI)
  show "batch_configured (NewBackendCollector svc lrn lc direction ps)"
    by (rule configured_new)
  show "uploadBatch (NewBackendCollector svc lrn lc direction ps) =
       \<lparr>bufSize = 10, flushDuration = 30 * 1000000000, buf = []\<rparr>"
    by (simp add: NewBackendCollector_def NewInMemory_def uploadBatchMaxSize_def
        uploadBatchFlushDuration_def Second_def)
next
  assume a: "batch_configured c \<and> chain (plugins c) (witness w) = Some m
        \<and> length (buf (uploadBatch c)) + 1 < 10"
  then have add: "InMemory_Add (uploadWitnesses d c) t (w\<lparr>witness := obfuscate d m\<rparr>) (uploadBatch c) =
               ([], (uploadBatch c)\<lparr>buf := buf (uploadBatch c) @ [(t, w\<lparr>witness := obfuscate d m\<rparr>)]\<rparr>)"
    by (simp add: InMemory_Add_def batch_configured_def uploadBatchMaxSize_def)
  from a queueUpload_ok[of c w m d t]
  show "shipped (fst (queueUpload d t w c)) = []"
    and "buf (uploadBatch (snd (queueUpload d t w c))) =
            buf (uploadBatch c) @ [(t, w\<lparr>witness := obfuscate d m\<rparr>)]"
    by (simp_all add: add)
next
  assume a: "batch_configured c \<and> chain (plugins c) (witness w) = Some m
        \<and> length (buf (uploadBatch c)) + 1 = 10"
  define b1 where
    "b1 = (uploadBatch c)\<lparr>buf := buf (uploadBatch c) @ [(t, w\<lparr>witness := obfuscate d m\<rparr>)]\<rparr>"
  from a have add: "InMemory_Add (uploadWitnesses d c) t (w\<lparr>witness := obfuscate d m\<rparr>) (uploadBatch c) =
               InMemory_flush (uploadWitnesses d c) b1"
    by (simp add: InMemory_Add_def batch_configured_def uploadBatchMaxSize_def b1_def)
  have ne: "buf b1 \<noteq> []" by (simp add: b1_def)
  from a queueUpload_ok[of c w m d t] flush_shipped[OF ne, of d c]
  show "shipped (fst (queueUpload d t w c)) =
            [converted d (dir c) (map snd (buf (uploadBatch c)) @ [w\<lparr>witness := obfuscate d m\<rparr>])]"
    by (simp add: add) (simp add: b1_def)
  from a queueUpload_ok[of c w m d t]
  show "buf (uploadBatch (snd (queueUpload d t w c))) = []"
    by (simp add: add InMemory_flush_def)
next
  assume a: "batch_configured c \<and> buf (uploadBatch c) = (t0, x) # rest
        \<and> 30 * 1000000000 < t - t0"
  then have tk: "InMemory_tick (uploadWitnesses d c) t (uploadBatch c) =
                   InMemory_flush (uploadWitnesses d c) (uploadBatch c)"
    using time_Sub_interval[of t t0]
    by (simp add: InMemory_tick_def batch_configured_def)
  from a have ne: "buf (uploadBatch c) \<noteq> []" by simp
  from flush_shipped[OF ne, of d c] a
  show "shipped (fst (Tick d t c)) = [converted d (dir c) (x # map snd rest)]"
    by (simp add: Tick_def case_prod_beta tk)
  show "buf (uploadBatch (snd (Tick d t c))) = []"
    by (simp add: Tick_def case_prod_beta tk InMemory_flush_def)
next
  assume a: "batch_configured c \<and> buf (uploadBatch c) = (t0, x) # rest
        \<and> t - t0 \<le> 30 * 1000000000"
  then have tk: "InMemory_tick (uploadWitnesses d c) t (uploadBatch c) = ([], uploadBatch c)"
    using time_Sub_interval[of t t0]
    by (simp add: InMemory_tick_def batch_configured_def)
  show "Tick d t c = ([], c)"
    by (simp add: Tick_def tk)
qed

theorem uploadBatch_size_and_time_triggers_witness:
  "batch_configured ex_nine \<and> chain (plugins ex_nine) (witness (ex_w 10 ''b'')) = Some ''b''
   \<and> length (buf (uploadBatch ex_nine)) + 1 = 10
   \<and> map (map ID) (shipped (fst (queueUpload ex_deps 6000000000 (ex_w 10 ''b'') ex_nine))) =
       [[1, 2, 3, 4, 5, 6, 7, 8, 9, 10]]
   \<and> buf (uploadBatch (snd (queueUpload ex_deps 6000000000 (ex_w 10 ''b'') ex_nine))) = []
   \<and> batch_configured (ex_collector [])
   \<and> length (buf (uploadBatch (ex_collector []))) + 1 < 10
   \<and> queueUpload ex_deps 6000000000 (ex_w 1 ''b'') (ex_collector []) =
       ([QueueUpload (ex_w 1 ''b''), ObfuscateCall ''b''],
        (ex_collector [])\<lparr>uploadBatch :=
           \<lparr>bufSize = 10, flushDuration = 30000000000,
            buf = [(6000000000, ex_w 1 ''x'')]\<rparr>\<rparr>)
   \<and> map (map ID) (shipped (fst (Tick ex_deps 40000000000
         (snd (queueUpload ex_deps 6000000000 (ex_w 1 ''b'') (ex_collector [])))))) = [[1]]
   \<and> fst (Tick ex_deps 36000000000
         (snd (queueUpload ex_deps 6000000000 (ex_w 1 ''b'') (ex_collector [])))) = []"
  using uploadBatch_size_and_time_triggers [of 1 2 ex_client Inbound "[]" ex_nine
      "ex_w 10 ''b''" "''b''" ex_deps 6000000000 5000000000 "ex_w 1 ''a''"
      "map (\<lambda>k. (5000000000, ex_w k ''a'')) [2, 3, 4, 5, 6, 7, 8, 9]" ]
    uploadBatch_size_and_time_triggers [of 1 2 ex_client Inbound "[]" "ex_collector []"
      "ex_w 1 ''b''" "''b''" ex_deps 6000000000 5000000000 "ex_w 1 ''a''" "[]"]
    uploadBatch_size_and_time_triggers [of 1 2 ex_client Inbound "[]"
      "snd (queueUpload ex_deps 6000000000 (ex_w 1 ''b'') (ex_collector []))"
      "ex_w 1 ''b''" "''b''" ex_deps 40000000000 6000000000 "ex_w 1 ''x''" "[]"]
  by (simp add: ex_run ex_nine_def ex_w_def ex_deps_def batch_configured_def
      uploadBatchMaxSize_def uploadBatchFlushDuration_def)

section \<open>The outcomes of sendRequest\<close>

lemma sendRequest_no_key:
  "fst (GetAPIKeyAndSecret env) = [] \<Longrightarrow> sendRequest env req = ([], Inl (ErrorNew keyIDNotFound))"
  by (simp add: sendRequest_def case_prod_beta)

lemma sendRequest_no_secret:
  "fst (GetAPIKeyAndSecret env) \<noteq> [] \<Longrightarrow> snd (GetAPIKeyAndSecret env) = [] \<Longrightarrow>
   sendRequest env req = ([], Inl (ErrorNew keySecretNotFound))"
  by (simp add: sendRequest_def case_prod_beta)

lemma sendRequest_with_credentials:
  "fst (GetAPIKeyAndSecret env) \<noteq> [] \<Longrightarrow> snd (GetAPIKeyAndSecret env) \<noteq> [] \<Longrightarrow>
   sendRequest env req =
     (case FromRequest env (outgoing env req) of
        Inl err \<Rightarrow>
          ([], Inl (ErrorWrap (ClientError err)
                      ''failed to convert HTTP request into retryable request''))
      | Inr retryableReq \<Rightarrow>
          (case Do env retryableReq of
             Inl err \<Rightarrow> ([retryableReq], Inl (ClientError err))
           | Inr resp \<Rightarrow>
               (case Body resp of
                  Inl err \<Rightarrow>
                    ([retryableReq],
                     Inl (ErrorWrap (ClientError err) ''failed to read response body''))
                | Inr respBody \<Rightarrow>
                    if StatusCode resp < 200 \<or> 299 < StatusCode resp
                    then ([retryableReq], Inl (HTTPError (StatusCode resp) respBody))
                    else ([retryableReq], Inr respBody))))"
  by (simp add: sendRequest_def outgoing_def case_prod_beta Let_def)

lemma sendRequest_unauthorized:
  assumes "fst (GetAPIKeyAndSecret env) \<noteq> []" and "snd (GetAPIKeyAndSecret env) \<noteq> []"
    and "FromRequest env (outgoing env req) = Inr rreq" and "Do env rreq = Inr resp"
    and "StatusCode resp = 401"
  shows "\<exists>err. snd (sendRequest env req) = Inl err"
  using assms by (cases "Body resp") (simp_all add: sendRequest_with_credentials)

lemma Run_fails:
  "snd (sendRequest env req) = Inl err \<Longrightarrow> Run env req ingest c = (c, Some err)"
  by (simp add: Run_def)

text \<open>
  Claim C8, as amended. With both credentials set, the request goes out with the basic
  authentication and the git version header; when the client returns a response whose
  body is read to the end, a status 401 gives the \<open>HTTPError\<close> whose message is the
  invalid-credentials text telling the user what to do, any other status outside
  200..299 gives the \<open>HTTPError\<close> that carries the status and the body, and whose
  message shows both, and a status within 200..299 gives the body. When reading the
  body fails, the error is the wrapped read error, whatever the status. With the key
  identifier or the secret empty, \<open>sendRequest\<close> returns an error and hands no request
  to the HTTP client. Missing credentials, and invalid ones (the service answers the
  first call with 401), are fatal before any ingestion starts: \<open>Run\<close>, modelled from
  the specification, returns the error of \<open>sendRequest\<close> with the collectors untouched,
  and \<open>RunE\<close> returns it to the top-level caller as an \<open>AkitaErr\<close>.
\<close>

theorem sendRequest_outcomes:
  "(fst (GetAPIKeyAndSecret env) = [] \<longrightarrow>
      sendRequest env req = ([], Inl (ErrorNew keyIDNotFound)))
   \<and> (fst (GetAPIKeyAndSecret env) \<noteq> [] \<and> snd (GetAPIKeyAndSecret env) = [] \<longrightarrow>
      sendRequest env req = ([], Inl (ErrorNew keySecretNotFound)))
   \<and> BasicAuth (outgoing env req) = Some (GetAPIKeyAndSecret env)
   \<and> Header (outgoing env req) ''X-Akita-Cli-Git-Version'' = Some (GitVersion env)
   \<and> (fst (GetAPIKeyAndSecret env) \<noteq> [] \<and> snd (GetAPIKeyAndSecret env) \<noteq> []
       \<and> FromRequest env (outgoing env req) = Inr rreq \<and> Do env rreq = Inr resp \<longrightarrow>
        (Body resp = Inr body \<and> StatusCode resp = 401 \<longrightarrow>
           sendRequest env req = ([rreq], Inl (HTTPError 401 body))
           \<and> Error (HTTPError 401 body) = invalidCredentials)
      \<and> (Body resp = Inr body \<and> (StatusCode resp < 200 \<or> 299 < StatusCode resp)
           \<and> StatusCode resp \<noteq> 401 \<longrightarrow>
           sendRequest env req = ([rreq], Inl (HTTPError (StatusCode resp) body))
           \<and> Error (HTTPError (StatusCode resp) body) =
               ''received status code '' @ itoa (StatusCode resp) @ '', body: '' @ body)
      \<and> (Body resp = Inr body \<and> 200 \<le> StatusCode resp \<and> StatusCode resp \<le> 299 \<longrightarrow>
           sendRequest env req = ([rreq], Inr body))
      \<and> (Body resp = Inl err \<longrightarrow>
           sendRequest env req =
             ([rreq], Inl (ErrorWrap (ClientError err) ''failed to read response body''))))
   \<and> (fst (GetAPIKeyAndSecret env) = [] \<or> snd (GetAPIKeyAndSecret env) = []
       \<or> (FromRequest env (outgoing env req) = Inr rreq \<and> Do env rreq = Inr resp
           \<and> StatusCode resp = 401) \<longrightarrow>
        (\<exists>e. snd (sendRequest env req) = Inl e
            \<and> Run env req ingest c = (c, Some e)
            \<and> RunE (Inr tagMap) (Inr loaded) (\<lambda>tagMap loaded. Run env req ingest) c =
                (c, Some (AkitaErr e))))"
proof (intro conjI impI)
  assume "fst (GetAPIKeyAndSecret env) = []"
  then show "sendRequest env req = ([], Inl (ErrorNew keyIDNotFound))"
    by (rule sendRequest_no_key)
next
  assume "fst (GetAPIKeyAndSecret env) \<noteq> [] \<and> snd (GetAPIKeyAndSecret env) = []"
  then show "sendRequest env req = ([], Inl (ErrorNew keySecretNotFound))"
    by (simp add: sendRequest_no_secret)
next
  show "BasicAuth (outgoing env req) = Some (GetAPIKeyAndSecret env)"
    by (simp add: outgoing_def)
  show "Header (outgoing env req) ''X-Akita-Cli-Git-Version'' = Some (GitVersion env)"
    by (simp add: outgoing_def)
next
  assume a: "fst (GetAPIKeyAndSecret env) \<noteq> [] \<and> snd (GetAPIKeyAndSecret env) \<noteq> []
       \<and> FromRequest env (outgoing env req) = Inr rreq \<and> Do env rreq = Inr resp"
    and b: "Body resp = Inr body \<and> StatusCode resp = 401"
  from a b show "sendRequest env req = ([rreq], Inl (HTTPError 401 body))"
    by (simp add: sendRequest_with_credentials)
  show "Error (HTTPError 401 body) = invalidCredentials" by simp
next
  assume a: "fst (GetAPIKeyAndSecret env) \<noteq> [] \<and> snd (GetAPIKeyAndSecret env) \<noteq> []
       \<and> FromRequest env (outgoing env req) = Inr rreq \<and> Do env rreq = Inr resp"
    and b: "Body resp = Inr body \<and> (StatusCode resp < 200 \<or> 299 < StatusCode resp)
           \<and> StatusCode resp \<noteq> 401"
  from a b show "sendRequest env req = ([rreq], Inl (HTTPError (StatusCode resp) body))"
    by (simp add: sendRequest_with_credentials)
  from b show "Error (HTTPError (StatusCode resp) body) =
               ''received status code '' @ itoa (StatusCode resp) @ '', body: '' @ body"
    by simp
next
  assume a: "fst (GetAPIKeyAndSecret env) \<noteq> [] \<and> snd (GetAPIKeyAndSecret env) \<noteq> []
       \<and> FromRequest env (outgoing env req) = Inr rreq \<and> Do env rreq = Inr resp"
    and b: "Body resp = Inr body \<and> 200 \<le> StatusCode resp \<and> StatusCode resp \<le> 299"
  from a b show "sendRequest env req = ([rreq], Inr body)"
    by (simp add: sendRequest_with_credentials)
next
  assume a: "fst (GetAPIKeyAndSecret env) \<noteq> [] \<and> snd (GetAPIKeyAndSecret env) \<noteq> []
       \<and> FromRequest env (outgoing env req) = Inr rreq \<and> Do env rreq = Inr resp"
    and b: "Body resp = Inl err"
  from a b show "sendRequest env req =
             ([rreq], Inl (ErrorWrap (ClientError err) ''failed to read response body''))"
    by (simp add: sendRequest_with_credentials)
next
  assume a: "fst (GetAPIKeyAndSecret env) = [] \<or> snd (GetAPIKeyAndSecret env) = []
       \<or> (FromRequest env (outgoing env req) = Inr rreq \<and> Do env rreq = Inr resp
           \<and> StatusCode resp = 401)"
  have "\<exists>e. snd (sendRequest env req) = Inl e"
  proof (cases "fst (GetAPIKeyAndSecret env) = []")
    case True
    then show ?thesis by (simp add: sendRequest_no_key)
  next
    case k: False
    show ?thesis
    proof (cases "snd (GetAPIKeyAndSecret env) = []")
      case True
      with k show ?thesis by (simp add: sendRequest_no_secret)
    next
      case False
      with k a show ?thesis by (auto intro: sendRequest_unauthorized)
    qed
  qed
  then obtain e where e: "snd (sendRequest env req) = Inl e" ..
  then have r: "Run env req ingest c = (c, Some e)" by (rule Run_fails)
  then have "RunE (Inr tagMap) (Inr loaded) (\<lambda>tagMap loaded. Run env req ingest) c =
                (c, Some (AkitaErr e))"
    by (simp add: RunE_def)
  with e r show "\<exists>e. snd (sendRequest env req) = Inl e
            \<and> Run env req ingest c = (c, Some e)
            \<and> RunE (Inr tagMap) (Inr loaded) (\<lambda>tagMap loaded. Run env req ingest) c =
                (c, Some (AkitaErr e))"
    by blast
qed

lemmas ex_rest =
  sendRequest_def outgoing_def ex_restEnv_def ex_httpRequest_def itoa_def

theorem sendRequest_outcomes_witness:
  "snd (sendRequest (ex_restEnv 401 (Inr ''denied'')) ex_httpRequest) =
     Inl (HTTPError 401 ''denied'')
   \<and> Error (HTTPError 401 ''denied'') = invalidCredentials
   \<and> snd (sendRequest (ex_restEnv 503 (Inr ''busy'')) ex_httpRequest) =
     Inl (HTTPError 503 ''busy'')
   \<and> Error (HTTPError 503 ''busy'') = ''received status code 503, body: busy''
   \<and> snd (sendRequest (ex_restEnv 200 (Inr ''fine'')) ex_httpRequest) = Inr ''fine''
   \<and> sendRequest ((ex_restEnv 200 (Inr ''fine''))\<lparr>GetAPIKeyAndSecret := ('''', ''secret'')\<rparr>)
        ex_httpRequest = ([], Inl (ErrorNew keyIDNotFound))
   \<and> sendRequest ((ex_restEnv 200 (Inr ''fine''))\<lparr>GetAPIKeyAndSecret := (''apk_1'', '''')\<rparr>)
        ex_httpRequest = ([], Inl (ErrorNew keySecretNotFound))
   \<and> RunE (Inr ()) (Inr ())
        (\<lambda>tagMap loaded. Run (ex_restEnv 401 (Inr ''denied'')) ex_httpRequest
           (\<lambda>n. (Suc n, None)))
        (0::nat) = (0, Some (AkitaErr (HTTPError 401 ''denied'')))
   \<and> RunE (Inr ()) (Inr ())
        (\<lambda>tagMap loaded.
           Run ((ex_restEnv 200 (Inr ''fine''))\<lparr>GetAPIKeyAndSecret := ('''', ''secret'')\<rparr>)
             ex_httpRequest (\<lambda>n. (Suc n, None)))
        (0::nat) = (0, Some (AkitaErr (ErrorNew keyIDNotFound)))
   \<and> RunE (Inr ()) (Inr ())
        (\<lambda>tagMap loaded. Run (ex_restEnv 200 (Inr ''fine'')) ex_httpRequest
           (\<lambda>n. (Suc n, None)))
        (0::nat) = (1, None)"
  using sendRequest_outcomes [of "ex_restEnv 401 (Inr ''denied'')" ex_httpRequest
      "outgoing (ex_restEnv 401 (Inr ''denied'')) ex_httpRequest"
      "\<lparr>StatusCode = 401, Body = Inr ''denied''\<rparr>" "''denied''" "''''"
      "\<lambda>n. (Suc n, None)" "0::nat" "()" "()"]
    sendRequest_outcomes [of "ex_restEnv 503 (Inr ''busy'')" ex_httpRequest
      "outgoing (ex_restEnv 503 (Inr ''busy'')) ex_httpRequest"
      "\<lparr>StatusCode = 503, Body = Inr ''busy''\<rparr>" "''busy''" "''''"
      "\<lambda>n. (Suc n, None)" "0::nat" "()" "()"]
    sendRequest_outcomes [of "ex_restEnv 200 (Inr ''fine'')" ex_httpRequest
      "outgoing (ex_restEnv 200 (Inr ''fine'')) ex_httpRequest"
      "\<lparr>StatusCode = 200, Body = Inr ''fine''\<rparr>" "''fine''" "''''"
      "\<lambda>n. (Suc n, None)" "0::nat" "()" "()"]
    sendRequest_outcomes [of
      "(ex_restEnv 200 (Inr ''fine''))\<lparr>GetAPIKeyAndSecret := ('''', ''secret'')\<rparr>" ex_httpRequest
      "outgoing (ex_restEnv 200 (Inr ''fine'')) ex_httpRequest"
      "\<lparr>StatusCode = 200, Body = Inr ''fine''\<rparr>" "''fine''" "''''"
      "\<lambda>n. (Suc n, None)" "0::nat" "()" "()"]
    sendRequest_outcomes [of
      "(ex_restEnv 200 (Inr ''fine''))\<lparr>GetAPIKeyAndSecret := (''apk_1'', '''')\<rparr>" ex_httpRequest]
  by (simp add: ex_rest Run_def RunE_def)

theorem sendRequest_unread_body_counterexample:
  "StatusCode \<lparr>StatusCode = 401, Body = Inl ''unexpected EOF''\<rparr> = 401
   \<and> Do (ex_restEnv 401 (Inl ''unexpected EOF''))
        (outgoing (ex_restEnv 401 (Inl ''unexpected EOF'')) ex_httpRequest) =
      Inr \<lparr>StatusCode = 401, Body = Inl ''unexpected EOF''\<rparr>
   \<and> snd (sendRequest (ex_restEnv 401 (Inl ''unexpected EOF'')) ex_httpRequest) =
      Inl (ErrorWrap (ClientError ''unexpected EOF'') ''failed to read response body'')
   \<and> Error (ErrorWrap (ClientError ''unexpected EOF'') ''failed to read response body'') =
      ''failed to read response body: unexpected EOF''
   \<and> ''failed to read response body: unexpected EOF'' \<noteq> invalidCredentials"
  by (simp add: ex_rest invalidCredentials_def)

section \<open>Replaying an archive: the counts\<close>

lemma Errors_fold:
  "SampleCount (fold Errors_Add es e) = SampleCount e
   \<and> TotalCount (fold Errors_Add es e) = TotalCount e + int (length es)
   \<and> Samples (fold Errors_Add es e) =
       Samples e @ take (SampleCount e - length (Samples e)) es"
proof (induction es arbitrary: e)
  case Nil
  show ?case by simp
next
  case (Cons a es)
  show ?case
  proof (cases "length (Samples e) < SampleCount e")
    case True
    then obtain n where n: "SampleCount e - length (Samples e) = Suc n"
      by (cases "SampleCount e - length (Samples e)") auto
    then have "SampleCount e - Suc (length (Samples e)) = n" by simp
    with True n show ?thesis
      using Cons.IH[of "Errors_Add a e"] by (simp add: Errors_Add_def)
  next
    case False
    then show ?thesis
      using Cons.IH[of "Errors_Add a e"] by (simp add: Errors_Add_def)
  qed
qed

lemma entry_step:
  "errs (parseFromHAR_entry process cq cr u i entry st) =
     fold Errors_Add (entryErrors cq cr entry) (errs st)"
  "col (parseFromHAR_entry process cq cr u i entry st) =
     fold process (entryFrames cq cr u i entry) (col st)"
  "successfulEntries (parseFromHAR_entry process cq cr u i entry st) =
     successfulEntries st + (if entryErrors cq cr entry = [] then 1 else 0)"
  by (simp_all add: parseFromHAR_entry_def entryErrors_def requestErrors_def responseErrors_def
      entryFrames_def split: option.splits sum.splits)

lemma loop_result:
  "errs (parseFromHAR_loop process cq cr u i entries st) =
     fold Errors_Add (concat (map (entryErrors cq cr) entries)) (errs st)
   \<and> col (parseFromHAR_loop process cq cr u i entries st) =
     fold process (archiveFrames cq cr u i entries) (col st)
   \<and> successfulEntries (parseFromHAR_loop process cq cr u i entries st) =
     successfulEntries st + int (length (filter (\<lambda>e. entryErrors cq cr e = []) entries))"
  by (induction entries arbitrary: i st) (simp_all add: entry_step)

lemma length_concat_singletons:
  "(\<And>x. x \<in> set xs \<Longrightarrow> length (f x) \<le> 1) \<Longrightarrow>
   length (concat (map f xs)) = length (filter (\<lambda>x. f x \<noteq> []) xs)"
proof (induction xs)
  case Nil
  show ?case by simp
next
  case (Cons a xs)
  then have "length (f a) \<le> 1" by simp
  then have "length (f a) = (if f a = [] then 0 else 1)"
    by (cases "f a") auto
  with Cons show ?case by simp
qed

text \<open>
  Claim C6. \<open>parseFromHAR\<close> always returns, having gone through every entry: the
  collector has been given, in order, the frame of every side that converted, also of
  the entries after one that did not. It reports the number of entries none of whose
  present sides failed to convert, the first three error messages in order, and the
  number of all conversion errors. In particular, for an archive of 10 entries of which
  3 have a response that does not convert, and no other conversion fails, it reports 7
  successful entries, at most 3 sample messages and a total error count of 3. The
  sample and the count are kept by \<open>sampled_err.Errors\<close>, modelled from the
  specification.
\<close>

theorem parseFromHAR_counts:
  "successfulEntries (parseFromHAR process cq cr u c entries) =
     int (length (filter (\<lambda>e. entryErrors cq cr e = []) entries))
   \<and> TotalCount (errs (parseFromHAR process cq cr u c entries)) =
     int (length (concat (map (entryErrors cq cr) entries)))
   \<and> Samples (errs (parseFromHAR process cq cr u c entries)) =
     take 3 (concat (map (entryErrors cq cr) entries))
   \<and> length (Samples (errs (parseFromHAR process cq cr u c entries))) \<le> 3
   \<and> col (parseFromHAR process cq cr u c entries) =
     fold process (archiveFrames cq cr u 0 entries) c
   \<and> (length entries = 10
       \<and> length (filter (\<lambda>e. responseErrors cr e \<noteq> []) entries) = 3
       \<and> (\<forall>e \<in> set entries. requestErrors cq e = []) \<longrightarrow>
       successfulEntries (parseFromHAR process cq cr u c entries) = 7
       \<and> length (Samples (errs (parseFromHAR process cq cr u c entries))) \<le> 3
       \<and> TotalCount (errs (parseFromHAR process cq cr u c entries)) = 3)"
proof -
  let ?r = "parseFromHAR process cq cr u c entries"
  let ?all = "concat (map (entryErrors cq cr) entries)"
  have s: "successfulEntries ?r = int (length (filter (\<lambda>e. entryErrors cq cr e = []) entries))"
    and cl: "col ?r = fold process (archiveFrames cq cr u 0 entries) c"
    and e: "errs ?r = fold Errors_Add ?all \<lparr>SampleCount = 3, Samples = [], TotalCount = 0\<rparr>"
    by (simp_all add: parseFromHAR_def loop_result)
  have t: "TotalCount (errs ?r) = int (length ?all)"
    and sm: "Samples (errs ?r) = take 3 ?all"
    unfolding e using Errors_fold[of ?all "\<lparr>SampleCount = 3, Samples = [], TotalCount = 0\<rparr>"]
    by simp_all
  have ln: "length (Samples (errs ?r)) \<le> 3"
    unfolding sm by simp
  have scen: "successfulEntries ?r = 7 \<and> length (Samples (errs ?r)) \<le> 3 \<and> TotalCount (errs ?r) = 3"
    if h: "length entries = 10 \<and> length (filter (\<lambda>e. responseErrors cr e \<noteq> []) entries) = 3
           \<and> (\<forall>e \<in> set entries. requestErrors cq e = [])"
  proof -
    from h have eq: "\<And>e. e \<in> set entries \<Longrightarrow> entryErrors cq cr e = responseErrors cr e"
      by (simp add: entryErrors_def)
    have f1: "filter (\<lambda>e. entryErrors cq cr e = []) entries =
              filter (\<lambda>e. \<not> responseErrors cr e \<noteq> []) entries"
      by (rule filter_cong) (simp_all add: eq)
    have f2: "filter (\<lambda>e. entryErrors cq cr e \<noteq> []) entries =
              filter (\<lambda>e. responseErrors cr e \<noteq> []) entries"
      by (rule filter_cong) (simp_all add: eq)
    from sum_length_filter_compl[of "\<lambda>e. responseErrors cr e \<noteq> []" entries] h
    have "length (filter (\<lambda>e. \<not> responseErrors cr e \<noteq> []) entries) = 7"
      by simp
    with s f1 have s7: "successfulEntries ?r = 7" by simp
    have one: "\<And>e. e \<in> set entries \<Longrightarrow> length (entryErrors cq cr e) \<le> 1"
      by (simp add: eq responseErrors_def split: option.splits sum.splits)
    have "length ?all = length (filter (\<lambda>e. entryErrors cq cr e \<noteq> []) entries)"
      using one by (rule length_concat_singletons)
    with f2 h have "length ?all = 3" by simp
    with t have "TotalCount (errs ?r) = 3" by simp
    with s7 ln show ?thesis by simp
  qed
  from s t sm ln cl scen show ?thesis by blast
qed

theorem parseFromHAR_counts_witness:
  "length ex_archive = 10
   \<and> length (filter (\<lambda>e. responseErrors ex_convertResponse e \<noteq> []) ex_archive) = 3
   \<and> filter (\<lambda>e. requestErrors ex_convertRequest e \<noteq> []) ex_archive = []
   \<and> successfulEntries
       (parseFromHAR (\<lambda>t n. Suc n) ex_convertRequest ex_convertResponse 5 0 ex_archive) = 7
   \<and> errs (parseFromHAR (\<lambda>t n. Suc n) ex_convertRequest ex_convertResponse 5 0 ex_archive) =
       \<lparr>SampleCount = 3,
        Samples = [''malformed response'', ''malformed response'', ''malformed response''],
        TotalCount = 3\<rparr>
   \<and> col (parseFromHAR (\<lambda>t n. Suc n) ex_convertRequest ex_convertResponse 5 0 ex_archive) = 17"
proof -
  have h: "length ex_archive = 10
       \<and> length (filter (\<lambda>e. responseErrors ex_convertResponse e \<noteq> []) ex_archive) = 3
       \<and> (\<forall>e \<in> set ex_archive. requestErrors ex_convertRequest e = [])"
    by (simp add: ex_archive_def ex_entry_def responseErrors_def requestErrors_def
        ex_convertResponse_def ex_convertRequest_def)
  have r: "errs (parseFromHAR (\<lambda>t n. Suc n) ex_convertRequest ex_convertResponse 5 0 ex_archive) =
       \<lparr>SampleCount = 3,
        Samples = [''malformed response'', ''malformed response'', ''malformed response''],
        TotalCount = 3\<rparr>
     \<and> col (parseFromHAR (\<lambda>t n. Suc n) ex_convertRequest ex_convertResponse 5 0 ex_archive) = 17"
    by (simp add: parseFromHAR_def parseFromHAR_entry_def ex_archive_def ex_entry_def
        ex_convertResponse_def ex_convertRequest_def Errors_Add_def)
  from parseFromHAR_counts [of "\<lambda>t n. Suc n" ex_convertRequest ex_convertResponse 5 0 ex_archive] h
  have "successfulEntries
       (parseFromHAR (\<lambda>t n. Suc n) ex_convertRequest ex_convertResponse 5 0 ex_archive) = 7"
    by blast
  moreover have "filter (\<lambda>e. requestErrors ex_convertRequest e \<noteq> []) ex_archive = []"
    using h by (simp add: filter_empty_conv)
  ultimately show ?thesis using h r by blast
qed

end
